theory Spec2Isabelle
  imports Main "HOL-Library.Word"
begin

unbundle bit_operations_syntax

section \<open>The membership cache of the IGMP snooper (cache.c)\<close>

text \<open>
  A shallow embedding of \<^verbatim>\<open>release/src/router/snooper/cache.c\<close>. The global tables
  \<^verbatim>\<open>hosts\<close>, \<open>members\<close>, \<open>groups\<close> and \<open>routers\<close> become one record that every operation
  takes and returns. Host and group entries are heap objects that are linked into a hash
  chain and into the pool queue at the same time, so they live in an explicit store
  (address to entry) and the chains and queues are lists of addresses. A member entry is
  linked into exactly one list at a time, so the lists hold the entries themselves.
\<close>

subsection \<open>Machine types and constants\<close>

text \<open>
  \<^verbatim>\<open>unsigned char ea[ETHER_ADDR_LEN]\<close> is six bytes, compared with \<^verbatim>\<open>memcmp\<close>: a word of
  48 bits. \<^verbatim>\<open>in_addr_t\<close> is 32 bits. \<^verbatim>\<open>unsigned long\<close> and \<^verbatim>\<open>int\<close> are taken at the 32 bits of
  the ILP32 router targets; arithmetic on them wraps. Port numbers are C \<^verbatim>\<open>int\<close>s that the
  code range-checks before use; they are modelled as mathematical integers.
\<close>

type_synonym ether_addr = "48 word"
type_synonym in_addr = "32 word"
type_synonym ulong = "32 word"
type_synonym cint = "32 word"

definition GROUP_POOL_SIZE :: nat where
  "GROUP_POOL_SIZE = 512"

definition MEMBER_POOL_SIZE :: nat where
  "MEMBER_POOL_SIZE = 1024"

definition HOST_POOL_SIZE :: nat where
  "HOST_POOL_SIZE = 32"

definition HOST_TTL :: nat where
  "HOST_TTL = 3"

definition HASH_SIZE :: nat where
  "HASH_SIZE = 64"

text \<open>
  \<^verbatim>\<open>PORT_MAX\<close>, \<^verbatim>\<open>TIMER_HZ\<close> and \<^verbatim>\<open>ether_hash\<close> are declared in \<^verbatim>\<open>snooper.h\<close>, which is not
  part of the sources at hand. They are parameters of the model.
\<close>

record config =
  PORT_MAX :: nat
  TIMER_HZ :: nat
  ether_hash :: "ether_addr \<Rightarrow> nat"

definition HASH_INDEX :: "config \<Rightarrow> ether_addr \<Rightarrow> nat" where
  "HASH_INDEX cfg ea = ether_hash cfg ea mod HASH_SIZE"

text \<open>
  Modelled from the spec: the macros \<^verbatim>\<open>time_after\<close>, \<^verbatim>\<open>time_before\<close> and \<^verbatim>\<open>time_after_eq\<close>
  of the missing \<^verbatim>\<open>snooper.h\<close>. The spec calls them wraparound-safe comparisons of ticks:
  the sign of the wrapped difference decides.
\<close>

definition time_after :: "ulong \<Rightarrow> ulong \<Rightarrow> bool" where
  "time_after a b = (sint (b - a) < 0)"

definition time_before :: "ulong \<Rightarrow> ulong \<Rightarrow> bool" where
  "time_before a b = time_after b a"

definition time_after_eq :: "ulong \<Rightarrow> ulong \<Rightarrow> bool" where
  "time_after_eq a b = (0 \<le> sint (a - b))"

text \<open>\<^verbatim>\<open>~0UL/2\<close>, the farthest future a wrapped comparison can tell from the past.\<close>

definition ULONG_HALF :: ulong where
  "ULONG_HALF = drop_bit 1 (NOT 0)"

subsection \<open>Data\<close>

record host_entry =
  host_time :: ulong
  host_port :: int
  host_ea :: ether_addr

record member_entry =
  member_time :: ulong
  member_addr :: in_addr

record group_entry =
  group_members :: "nat \<Rightarrow> member_entry list"
  group_time :: ulong
  portmap :: cint
  group_ea :: ether_addr

text \<open>
  Modelled from the spec: \<^verbatim>\<open>struct timer_entry\<close> and the timer service (\<^verbatim>\<open>set_timer\<close>,
  \<^verbatim>\<open>mod_timer\<close>, \<^verbatim>\<open>del_timer\<close>, \<^verbatim>\<open>timer_pending\<close>) of the missing \<^verbatim>\<open>snooper.h\<close>: a timer is
  armed for an absolute tick or idle.
\<close>

record timer_entry =
  pending :: bool
  expires :: ulong

definition set_timer :: timer_entry where
  "set_timer = \<lparr>pending = False, expires = 0\<rparr>"

definition mod_timer :: "timer_entry \<Rightarrow> ulong \<Rightarrow> timer_entry" where
  "mod_timer t e = t\<lparr>pending := True, expires := e\<rparr>"

definition del_timer :: "timer_entry \<Rightarrow> timer_entry" where
  "del_timer t = t\<lparr>pending := False\<rparr>"

definition timer_pending :: "timer_entry \<Rightarrow> bool" where
  "timer_pending t = pending t"

text \<open>The calls into the switch driver, in the order they are made.\<close>

datatype switch_call =
    Switch_get_port ether_addr
  | Switch_clr_portmap ether_addr
  | Switch_add_portmap ether_addr cint
  | Switch_del_portmap ether_addr cint

record cache =
  host_mem :: "nat \<Rightarrow> host_entry"
  hosts_pool :: "nat list"
  hosts_hash :: "nat \<Rightarrow> nat list"
  hosts_count :: nat
  members_free :: "member_entry list"
  members_count :: nat
  group_mem :: "nat \<Rightarrow> group_entry"
  groups_pool :: "nat list"
  groups_hash :: "nat \<Rightarrow> nat list"
  groups_timer :: timer_entry
  groups_count :: nat
  routers_group :: group_entry
  routers_timer :: timer_entry
  brk :: nat
  switch_log :: "switch_call list"

text \<open>
  Where the C code runs into undefined behaviour the model stops with a fault and the
  state reached at that point.
\<close>

datatype fault = Null_deref | Stack_overwrite

definition switch_call :: "switch_call \<Rightarrow> cache \<Rightarrow> cache" where
  "switch_call c s = s\<lparr>switch_log := switch_log s @ [c]\<rparr>"

subsection \<open>The host table\<close>

definition zero_host :: host_entry where
  "zero_host = \<lparr>host_time = 0, host_port = 0, host_ea = 0\<rparr>"

text \<open>
  \<^verbatim>\<open>get_host\<close>. After the search of the hash chain \<^verbatim>\<open>host\<close> is \<^verbatim>\<open>NULL\<close>. Below the pool size
  a new entry is taken from \<^verbatim>\<open>calloc\<close>, whose outcome is the argument \<open>calloc_ok\<close>; the
  counter moves only when \<^verbatim>\<open>calloc\<close> returns \<^verbatim>\<open>NULL\<close> (\<^verbatim>\<open>if (!host) hosts.count++\<close>). Without a
  new entry the first entry of the pool queue whose time is before \<open>time\<close> is unlinked
  from its chain and from the queue; then \<^verbatim>\<open>memset(&host, 0, sizeof(*host))\<close> writes
  \<^verbatim>\<open>sizeof(struct host_entry)\<close> zero bytes over the pointer variable and the stack behind
  it, which is where the model faults.
\<close>

definition get_host ::
  "config \<Rightarrow> bool \<Rightarrow> ether_addr \<Rightarrow> ulong \<Rightarrow> cache \<Rightarrow> (fault \<times> cache) + (nat option \<times> cache)" where
  "get_host cfg calloc_ok ea time s =
    (let index = HASH_INDEX cfg ea in
     case find (\<lambda>a. host_ea (host_mem s a) = ea) (hosts_hash s index) of
       Some host \<Rightarrow> Inr (Some host, s)
     | None \<Rightarrow>
        (let (host, s1) =
           (if hosts_count s < HOST_POOL_SIZE then
              (if calloc_ok
               then (Some (brk s), s\<lparr>host_mem := (host_mem s)(brk s := zero_host), brk := Suc (brk s)\<rparr>)
               else (None, s\<lparr>hosts_count := Suc (hosts_count s)\<rparr>))
            else (None, s))
         in case host of
           Some h \<Rightarrow>
             Inr (Some h,
               s1\<lparr>host_mem := (host_mem s1)(h := (host_mem s1 h)\<lparr>host_ea := ea\<rparr>),
                  hosts_hash := (hosts_hash s1)(index := h # hosts_hash s1 index),
                  hosts_pool := hosts_pool s1 @ [h]\<rparr>)
         | None \<Rightarrow>
            (case find (\<lambda>a. time_before (host_time (host_mem s1 a)) time) (hosts_pool s1) of
               None \<Rightarrow> Inr (None, s1)
             | Some v \<Rightarrow>
                (let vi = HASH_INDEX cfg (host_ea (host_mem s1 v)) in
                 Inl (Stack_overwrite,
                   s1\<lparr>hosts_hash := (hosts_hash s1)(vi := remove1 v (hosts_hash s1 vi)),
                      hosts_pool := remove1 v (hosts_pool s1)\<rparr>)))))"

text \<open>
  \<^verbatim>\<open>get_port\<close>. \<open>time\<close> is what \<^verbatim>\<open>now()\<close> returns and \<open>sw_port\<close> the answer the switch
  driver gives if it is asked.
\<close>

definition get_port ::
  "config \<Rightarrow> ulong \<Rightarrow> bool \<Rightarrow> int \<Rightarrow> ether_addr \<Rightarrow> cache \<Rightarrow> (fault \<times> cache) + (int \<times> cache)" where
  "get_port cfg time calloc_ok sw_port haddr s =
    (case get_host cfg calloc_ok haddr time s of
       Inl f \<Rightarrow> Inl f
     | Inr (host, s1) \<Rightarrow>
        (case (case host of
                 Some h \<Rightarrow> if time_after_eq (host_time (host_mem s1 h)) time
                           then Some (host_port (host_mem s1 h)) else None
               | None \<Rightarrow> None) of
           Some cached \<Rightarrow> Inr (cached, s1)
         | None \<Rightarrow>
            (let s2 = switch_call (Switch_get_port haddr) s1;
                 port = sw_port;
                 s3 = (case host of
                         Some h \<Rightarrow>
                           if 0 \<le> port \<and> port \<le> int (PORT_MAX cfg)
                           then s2\<lparr>host_mem := (host_mem s2)
                                  (h := (host_mem s2 h)\<lparr>host_port := port,
                                        host_time := time + of_nat (HOST_TTL * TIMER_HZ cfg)\<rparr>)\<rparr>
                           else s2
                       | None \<Rightarrow> s2)
             in Inr (port, s3))))"

subsection \<open>Members and groups\<close>

definition zero_member :: member_entry where
  "zero_member = \<lparr>member_time = 0, member_addr = 0\<rparr>"

definition zero_group :: group_entry where
  "zero_group = \<lparr>group_members = (\<lambda>_. []), group_time = 0, portmap = 0, group_ea = 0\<rparr>"

text \<open>The position of the first member with the address, as \<^verbatim>\<open>LIST_FOREACH\<close> finds it.\<close>

fun find_member :: "in_addr \<Rightarrow> member_entry list \<Rightarrow> nat option" where
  "find_member addr [] = None"
| "find_member addr (m # ms) =
     (if member_addr m = addr then Some 0 else map_option Suc (find_member addr ms))"

fun update_nth :: "nat \<Rightarrow> ('a \<Rightarrow> 'a) \<Rightarrow> 'a list \<Rightarrow> 'a list" where
  "update_nth i f [] = []"
| "update_nth 0 f (x # xs) = f x # xs"
| "update_nth (Suc i) f (x # xs) = x # update_nth i f xs"

text \<open>
  \<^verbatim>\<open>get_member\<close>. The member found or made is returned as its position in the list of
  the port, together with the group as it is afterwards. \<open>calloc_ok\<close> is the outcome of
  \<^verbatim>\<open>calloc\<close>, should it be called.
\<close>

definition get_member ::
  "group_entry \<Rightarrow> in_addr \<Rightarrow> nat \<Rightarrow> bool \<Rightarrow> bool \<Rightarrow> cache \<Rightarrow> nat option \<times> group_entry \<times> cache" where
  "get_member grp addr port allocate calloc_ok s =
    (case find_member addr (group_members grp port) of
       Some i \<Rightarrow> (Some i, grp, s)
     | None \<Rightarrow>
        if \<not> allocate then (None, grp, s)
        else
          (let (member, s1) =
             (case members_free s of
                m # free \<Rightarrow> (Some zero_member, s\<lparr>members_free := free\<rparr>)
              | [] \<Rightarrow>
                 if members_count s < MEMBER_POOL_SIZE
                 then (if calloc_ok
                       then (Some zero_member, s\<lparr>members_count := Suc (members_count s)\<rparr>)
                       else (None, s))
                 else (None, s))
           in case member of
                None \<Rightarrow> (None, grp, s1)
              | Some m \<Rightarrow>
                 (Some 0,
                  grp\<lparr>group_members := (group_members grp)
                          (port := m\<lparr>member_addr := addr\<rparr> # group_members grp port)\<rparr>,
                  s1)))"

text \<open>\<^verbatim>\<open>consume_member\<close> for the member at position \<open>i\<close> of the list of \<open>port\<close>.\<close>

definition consume_member ::
  "group_entry \<Rightarrow> nat \<Rightarrow> nat \<Rightarrow> cache \<Rightarrow> group_entry \<times> cache" where
  "consume_member grp port i s =
    (let ms = group_members grp port in
     (grp\<lparr>group_members := (group_members grp)(port := take i ms @ drop (Suc i) ms)\<rparr>,
      s\<lparr>members_free := take 1 (drop i ms) @ members_free s\<rparr>))"

definition init_group :: "config \<Rightarrow> group_entry \<Rightarrow> group_entry" where
  "init_group cfg grp =
    fold (\<lambda>port g. g\<lparr>group_members := (group_members g)(port := [])\<rparr>)
      [0..<Suc (PORT_MAX cfg)] (grp\<lparr>portmap := 0\<rparr>)"

text \<open>
  \<^verbatim>\<open>get_group\<close>. When no new entry is to be had, the first entry of the pool queue with
  an empty port map is unlinked and the switch is told to clear its address; then
  \<^verbatim>\<open>memset(&group, 0, sizeof(group))\<close> sets the pointer itself to \<^verbatim>\<open>NULL\<close> and
  \<^verbatim>\<open>init_group\<close> writes through it.
\<close>

definition get_group ::
  "config \<Rightarrow> bool \<Rightarrow> ether_addr \<Rightarrow> bool \<Rightarrow> cache \<Rightarrow> (fault \<times> cache) + (nat option \<times> cache)" where
  "get_group cfg calloc_ok ea allocate s =
    (let index = HASH_INDEX cfg ea in
     case find (\<lambda>a. group_ea (group_mem s a) = ea) (groups_hash s index) of
       Some grp \<Rightarrow> Inr (Some grp, s)
     | None \<Rightarrow>
        if \<not> allocate then Inr (None, s)
        else
          (let (grp, s1) =
             (if groups_count s < GROUP_POOL_SIZE then
                (if calloc_ok
                 then (Some (brk s),
                       s\<lparr>group_mem := (group_mem s)(brk s := zero_group), brk := Suc (brk s),
                         groups_count := Suc (groups_count s)\<rparr>)
                 else (None, s))
              else (None, s))
           in case grp of
             Some g \<Rightarrow>
               Inr (Some g,
                 s1\<lparr>group_mem := (group_mem s1)
                       (g := (init_group cfg (group_mem s1 g))\<lparr>group_ea := ea\<rparr>),
                    groups_hash := (groups_hash s1)(index := g # groups_hash s1 index),
                    groups_pool := groups_pool s1 @ [g]\<rparr>)
           | None \<Rightarrow>
              (case find (\<lambda>a. portmap (group_mem s1 a) = 0) (groups_pool s1) of
                 None \<Rightarrow> Inr (None, s1)
               | Some v \<Rightarrow>
                  (let vi = HASH_INDEX cfg (group_ea (group_mem s1 v)) in
                   Inl (Null_deref,
                     switch_call (Switch_clr_portmap (group_ea (group_mem s1 v)))
                       (s1\<lparr>groups_hash := (groups_hash s1)(vi := remove1 v (groups_hash s1 vi)),
                           groups_pool := remove1 v (groups_pool s1)\<rparr>))))))"

text \<open>
  \<^verbatim>\<open>consume_group\<close>: every member, port by port and in list order, goes to the head of
  the free list.
\<close>

definition consume_group :: "config \<Rightarrow> group_entry \<Rightarrow> cache \<Rightarrow> group_entry \<times> cache" where
  "consume_group cfg grp s =
    fold (\<lambda>port (g, s').
            (g\<lparr>group_members := (group_members g)(port := [])\<rparr>,
             s'\<lparr>members_free := rev (group_members g port) @ members_free s'\<rparr>))
      [0..<Suc (PORT_MAX cfg)] (grp\<lparr>portmap := 0\<rparr>, s)"

definition get_portmap :: "config \<Rightarrow> group_entry \<Rightarrow> cint" where
  "get_portmap cfg grp =
    fold (\<lambda>port pm. if group_members grp port \<noteq> [] then pm OR push_bit port 1 else pm)
      [0..<Suc (PORT_MAX cfg)] 0"

definition init_cache :: "config \<Rightarrow> cache" where
  "init_cache cfg =
    \<lparr>host_mem = (\<lambda>_. zero_host), hosts_pool = [], hosts_hash = (\<lambda>_. []), hosts_count = 0,
     members_free = [], members_count = 0,
     group_mem = (\<lambda>_. zero_group), groups_pool = [], groups_hash = (\<lambda>_. []),
     groups_timer = set_timer, groups_count = 0,
     routers_group = init_group cfg zero_group, routers_timer = set_timer,
     brk = 1, switch_log = []\<rparr>"

subsection \<open>The group sweep\<close>

text \<open>One round of the \<^verbatim>\<open>STAILQ_FOREACH\<close> of \<^verbatim>\<open>group_timer\<close>, for the group at \<open>a\<close>.\<close>

definition group_timer_step ::
  "config \<Rightarrow> ulong \<Rightarrow> nat \<Rightarrow> ulong \<times> cache \<Rightarrow> ulong \<times> cache" where
  "group_timer_step cfg time a = (\<lambda>(expires, s).
    (let grp = group_mem s a; pm = portmap grp in
     if pm = 0 then (expires, s)
     else if time_after (group_time grp) time then
       ((if time_before (group_time grp) expires then group_time grp else expires), s)
     else
       (let (grp', s1) = consume_group cfg grp s;
            s2 = s1\<lparr>group_mem := (group_mem s1)(a := grp')\<rparr>;
            pm' = pm AND NOT (portmap (routers_group s2))
        in (expires,
            if pm' \<noteq> 0 then switch_call (Switch_del_portmap (group_ea grp') pm') s2 else s2))))"

definition group_timer :: "config \<Rightarrow> ulong \<Rightarrow> cache \<Rightarrow> cache" where
  "group_timer cfg time s =
    (let (expires, s1) = fold (group_timer_step cfg time) (groups_pool s) (time + ULONG_HALF, s)
     in if time_before expires (time + ULONG_HALF)
        then s1\<lparr>groups_timer := mod_timer (groups_timer s1) expires\<rparr>
        else s1)"

subsection \<open>Adding and removing members\<close>

text \<open>
  \<^verbatim>\<open>add_member\<close>. \<open>time\<close> is \<^verbatim>\<open>now()\<close>; \<open>calloc_group\<close> and \<open>calloc_member\<close> are the
  outcomes of the two \<^verbatim>\<open>calloc\<close> calls, should they be made.
\<close>

definition add_member ::
  "config \<Rightarrow> ulong \<Rightarrow> bool \<Rightarrow> bool \<Rightarrow> ether_addr \<Rightarrow> in_addr \<Rightarrow> int \<Rightarrow> cint \<Rightarrow> cache
    \<Rightarrow> (fault \<times> cache) + (cint \<times> cache)" where
  "add_member cfg time calloc_group calloc_member maddr addr port timeout s =
    (if port < 0 \<or> port > int (PORT_MAX cfg) then Inr (- 1, s)
     else
       case get_group cfg calloc_group maddr True s of
         Inl f \<Rightarrow> Inl f
       | Inr (None, s1) \<Rightarrow> Inr (0, s1)
       | Inr (Some g, s1) \<Rightarrow>
          (let grp = group_mem s1 g;
               pm = portmap grp;
               grp1 = grp\<lparr>group_time := time + timeout\<rparr>;
               (member, grp2, s2) = get_member grp1 addr (nat port) True calloc_member s1;
               grp3 = (case member of
                           Some i \<Rightarrow>
                             grp2\<lparr>group_members := (group_members grp2)
                               (nat port := update_nth i (\<lambda>m. m\<lparr>member_time := group_time grp2\<rparr>)
                                              (group_members grp2 (nat port)))\<rparr>
                         | None \<Rightarrow> grp2);
               grp4 = grp3\<lparr>portmap := get_portmap cfg grp3\<rparr>;
               pm1 = (pm XOR portmap grp4) AND portmap grp4;
               s3 = s2\<lparr>group_mem := (group_mem s2)(g := grp4)\<rparr>;
               timer = groups_timer s3;
               s4 = (if \<not> timer_pending timer \<or> time_before (group_time grp4) (expires timer)
                     then s3\<lparr>groups_timer := mod_timer timer (group_time grp4)\<rparr>
                     else s3)
           in Inr (pm1,
                if pm1 \<noteq> 0
                then switch_call (Switch_add_portmap maddr (pm1 OR portmap (routers_group s4))) s4
                else s4)))"

text \<open>The end of \<^verbatim>\<open>del_member\<close>, after the \<^verbatim>\<open>if (group) ... else\<close>.\<close>

definition del_member_report :: "ether_addr \<Rightarrow> cint \<Rightarrow> cache \<Rightarrow> cint \<times> cache" where
  "del_member_report maddr pm s =
    (let pm' = pm AND NOT (portmap (routers_group s))
     in (pm', if pm' \<noteq> 0 then switch_call (Switch_del_portmap maddr pm') s else s))"

definition del_member ::
  "config \<Rightarrow> ether_addr \<Rightarrow> in_addr \<Rightarrow> int \<Rightarrow> cache \<Rightarrow> (fault \<times> cache) + (cint \<times> cache)" where
  "del_member cfg maddr addr port s =
    (if port < 0 \<or> port > int (PORT_MAX cfg) then Inr (- 1, s)
     else
       case get_group cfg False maddr False s of
         Inl f \<Rightarrow> Inl f
       | Inr (None, s1) \<Rightarrow> Inr (del_member_report maddr 0 s1)
       | Inr (Some g, s1) \<Rightarrow>
          (let grp = group_mem s1 g;
               pm = portmap grp;
               (member, grp1, s2) = get_member grp addr (nat port) False False s1;
               (grp2, s3) = (case member of
                                 Some i \<Rightarrow> consume_member grp1 (nat port) i s2
                               | None \<Rightarrow> (grp1, s2));
               grp3 = grp2\<lparr>portmap := get_portmap cfg grp2\<rparr>;
               pm1 = (pm XOR portmap grp3) AND pm;
               (grp4, s4) = (if pm1 \<noteq> 0 \<and> portmap grp3 = 0
                               then consume_group cfg grp3 s3 else (grp3, s3));
               s5 = s4\<lparr>group_mem := (group_mem s4)(g := grp4)\<rparr>
           in Inr (del_member_report maddr pm1 s5)))"

subsection \<open>Router tracking\<close>

text \<open>
  The inner \<^verbatim>\<open>LIST_FOREACH_SAFE\<close> of \<^verbatim>\<open>router_timer\<close> over the members of one port: the
  members kept, the group time and the free list afterwards.
\<close>

fun sweep_members ::
  "ulong \<Rightarrow> member_entry list \<Rightarrow> ulong \<times> member_entry list
    \<Rightarrow> member_entry list \<times> ulong \<times> member_entry list" where
  "sweep_members time [] (gt, free) = ([], gt, free)"
| "sweep_members time (m # ms) (gt, free) =
     (if time_after (member_time m) time then
        (let (keep, gt', free') =
               sweep_members time ms
                 (if time_before (member_time m) gt then member_time m else gt, free)
         in (m # keep, gt', free'))
      else sweep_members time ms (gt, m # free))"

definition sweep_port :: "ulong \<Rightarrow> nat \<Rightarrow> group_entry \<times> cache \<Rightarrow> group_entry \<times> cache" where
  "sweep_port time port = (\<lambda>(g, s).
    (let (keep, gt, free) = sweep_members time (group_members g port) (group_time g, members_free s)
     in (g\<lparr>group_members := (group_members g)(port := keep), group_time := gt\<rparr>,
         s\<lparr>members_free := free\<rparr>)))"

text \<open>The \<^verbatim>\<open>STAILQ_FOREACH\<close> that closes \<^verbatim>\<open>router_timer\<close>, for the group at \<open>a\<close>.\<close>

definition router_del_step :: "cint \<Rightarrow> nat \<Rightarrow> cache \<Rightarrow> cache" where
  "router_del_step pm a s =
    (let groupmap = pm AND NOT (portmap (group_mem s a))
     in if groupmap \<noteq> 0
        then switch_call (Switch_del_portmap (group_ea (group_mem s a)) groupmap) s else s)"

definition router_timer :: "config \<Rightarrow> ulong \<Rightarrow> cache \<Rightarrow> cache" where
  "router_timer cfg time s =
    (let grp = routers_group s; pm = portmap grp in
     if sint pm < 0 then s
     else
       (let (pm1, s1) =
          (if time_after (group_time grp) time then
             (let grp1 = grp\<lparr>group_time := time + ULONG_HALF\<rparr>;
                  (grp2, s') = fold (sweep_port time) [0..<Suc (PORT_MAX cfg)] (grp1, s);
                  grp3 = grp2\<lparr>portmap := get_portmap cfg grp2\<rparr>;
                  pm' = (pm XOR portmap grp3) AND pm
              in if portmap grp3 \<noteq> 0
                 then (pm', s'\<lparr>routers_group := grp3,
                                routers_timer := mod_timer (routers_timer s') (group_time grp3)\<rparr>)
                 else (let (grp4, s'') = consume_group cfg grp3 s'
                       in (pm', s''\<lparr>routers_group := grp4\<rparr>)))
           else
             (let (grp', s') = consume_group cfg grp s
              in (pm, s'\<lparr>routers_group := grp'\<rparr>)))
        in if pm1 \<noteq> 0 then fold (router_del_step pm1) (groups_pool s1) s1 else s1))"

definition router_add_step :: "cint \<Rightarrow> nat \<Rightarrow> cache \<Rightarrow> cache" where
  "router_add_step pm a s =
    (let groupmap = pm AND NOT (portmap (group_mem s a))
     in if groupmap \<noteq> 0
        then switch_call (Switch_add_portmap (group_ea (group_mem s a)) groupmap) s else s)"

definition add_router ::
  "config \<Rightarrow> ulong \<Rightarrow> bool \<Rightarrow> in_addr \<Rightarrow> int \<Rightarrow> cint \<Rightarrow> cache \<Rightarrow> cint \<times> cache" where
  "add_router cfg time calloc_member addr port timeout s =
    (if port < 0 \<or> port > int (PORT_MAX cfg) then (- 1, s)
     else
       (let grp = routers_group s;
            pm = portmap grp;
            grp1 = grp\<lparr>group_time := time + timeout\<rparr>;
            (member, grp2, s2) = get_member grp1 addr (nat port) True calloc_member s;
            grp3 = (case member of
                      Some i \<Rightarrow>
                        grp2\<lparr>group_members := (group_members grp2)
                          (nat port := update_nth i (\<lambda>m. m\<lparr>member_time := group_time grp2\<rparr>)
                                         (group_members grp2 (nat port)))\<rparr>
                    | None \<Rightarrow> grp2);
            grp4 = grp3\<lparr>portmap := get_portmap cfg grp3\<rparr>;
            pm1 = (pm XOR portmap grp4) AND portmap grp4;
            s3 = s2\<lparr>routers_group := grp4\<rparr>;
            timer = routers_timer s3;
            s4 = (if \<not> timer_pending timer \<or> time_after (expires timer) (group_time grp4)
                  then s3\<lparr>routers_timer := mod_timer timer (group_time grp4)\<rparr>
                  else s3)
        in (pm1, if pm1 \<noteq> 0 then fold (router_add_step pm1) (groups_pool s4) s4 else s4)))"

subsection \<open>Forced expiry and shutdown\<close>

text \<open>The end of \<^verbatim>\<open>expire_members\<close>: the group timer is pulled forward to \<open>t\<close>.\<close>

definition expire_reschedule :: "ulong \<Rightarrow> cache \<Rightarrow> cache" where
  "expire_reschedule t s =
    (if \<not> timer_pending (groups_timer s) \<or> time_after (expires (groups_timer s)) t
     then s\<lparr>groups_timer := mod_timer (groups_timer s) t\<rparr> else s)"

text \<open>\<^verbatim>\<open>expire_members\<close>; \<open>maddr\<close> is \<open>None\<close> for the \<^verbatim>\<open>NULL\<close> that names every group.\<close>

definition expire_members ::
  "config \<Rightarrow> ulong \<Rightarrow> ether_addr option \<Rightarrow> cint \<Rightarrow> cache \<Rightarrow> (fault \<times> cache) + (cint \<times> cache)" where
  "expire_members cfg now maddr timeout s =
    (let time = now + timeout in
     case maddr of
       Some ea \<Rightarrow>
         (case get_group cfg False ea False s of
            Inl f \<Rightarrow> Inl f
          | Inr (None, s1) \<Rightarrow> Inr (- 1, s1)
          | Inr (Some g, s1) \<Rightarrow>
             Inr (0, expire_reschedule time
                       (s1\<lparr>group_mem := (group_mem s1)(g := (group_mem s1 g)\<lparr>group_time := time\<rparr>)\<rparr>)))
     | None \<Rightarrow>
         Inr (0, expire_reschedule time
                   (fold (\<lambda>a s'. s'\<lparr>group_mem := (group_mem s')
                                      (a := (group_mem s' a)\<lparr>group_time := time\<rparr>)\<rparr>)
                      (groups_pool s) s)))"

text \<open>
  One round of the first \<^verbatim>\<open>while\<close> loop of \<^verbatim>\<open>purge_cache\<close>, for the group at the head of
  the pool queue.
\<close>

definition purge_group :: "config \<Rightarrow> nat \<Rightarrow> cache \<Rightarrow> cache" where
  "purge_group cfg a s =
    (let (grp', s1) = consume_group cfg (group_mem s a) s;
         i = HASH_INDEX cfg (group_ea grp');
         s2 = s1\<lparr>group_mem := (group_mem s1)(a := grp'),
                 groups_hash := (groups_hash s1)(i := remove1 a (groups_hash s1 i)),
                 groups_pool := tl (groups_pool s1)\<rparr>
     in switch_call (Switch_clr_portmap (group_ea grp')) s2)"

definition purge_host :: "config \<Rightarrow> nat \<Rightarrow> cache \<Rightarrow> cache" where
  "purge_host cfg a s =
    (let i = HASH_INDEX cfg (host_ea (host_mem s a))
     in s\<lparr>hosts_pool := tl (hosts_pool s),
          hosts_hash := (hosts_hash s)(i := remove1 a (hosts_hash s i))\<rparr>)"

definition purge_cache :: "config \<Rightarrow> cache \<Rightarrow> cache" where
  "purge_cache cfg s =
    (let s1 = s\<lparr>groups_timer := del_timer (groups_timer s),
                routers_timer := del_timer (routers_timer s)\<rparr>;
         s2 = fold (purge_group cfg) (groups_pool s1) s1;
         (rg, s3) = consume_group cfg (routers_group s2) s2;
         s4 = s3\<lparr>routers_group := rg, members_free := []\<rparr>
     in fold (purge_host cfg) (hosts_pool s4) s4)"

subsection \<open>The public operations as one step function\<close>

text \<open>
  A call of the packet path or of the timer service, with what the environment
  contributes to it: the tick \<^verbatim>\<open>now()\<close> returns, the outcomes of \<^verbatim>\<open>calloc\<close> and the answer
  of the switch.
\<close>

datatype call =
    Get_port ulong bool int ether_addr
  | Add_member ulong bool bool ether_addr in_addr int cint
  | Del_member ether_addr in_addr int
  | Add_router ulong bool in_addr int cint
  | Expire_members ulong "ether_addr option" cint
  | Group_timer ulong
  | Router_timer ulong

text \<open>The state a call leaves, or the fault it runs into.\<close>

fun run :: "config \<Rightarrow> call \<Rightarrow> cache \<Rightarrow> (fault \<times> cache) + cache" where
  "run cfg (Get_port time calloc_ok sw_port haddr) s =
     map_sum id snd (get_port cfg time calloc_ok sw_port haddr s)"
| "run cfg (Add_member time cg cm maddr addr port timeout) s =
     map_sum id snd (add_member cfg time cg cm maddr addr port timeout s)"
| "run cfg (Del_member maddr addr port) s = map_sum id snd (del_member cfg maddr addr port s)"
| "run cfg (Add_router time cm addr port timeout) s =
     Inr (snd (add_router cfg time cm addr port timeout s))"
| "run cfg (Expire_members time maddr timeout) s =
     map_sum id snd (expire_members cfg time maddr timeout s)"
| "run cfg (Group_timer time) s = Inr (group_timer cfg time s)"
| "run cfg (Router_timer time) s = Inr (router_timer cfg time s)"

fun run_all :: "config \<Rightarrow> call list \<Rightarrow> cache \<Rightarrow> (fault \<times> cache) + cache" where
  "run_all cfg [] s = Inr s"
| "run_all cfg (c # cs) s =
     (case run cfg c s of Inl f \<Rightarrow> Inl f | Inr s' \<Rightarrow> run_all cfg cs s')"

subsection \<open>Vocabulary of the properties\<close>

text \<open>
  A port map that is what \<^verbatim>\<open>get_portmap\<close> would recompute, and the same said bit by bit:
  bit \<open>p\<close> is set exactly when \<open>p\<close> is a port and the member list of \<open>p\<close> is not empty.
\<close>

definition group_ok :: "config \<Rightarrow> group_entry \<Rightarrow> bool" where
  "group_ok cfg g \<longleftrightarrow> portmap g = get_portmap cfg g"

definition cache_inv :: "config \<Rightarrow> cache \<Rightarrow> bool" where
  "cache_inv cfg s \<longleftrightarrow>
     (\<forall>a\<in>set (groups_pool s). group_ok cfg (group_mem s a)) \<and>
     (\<forall>i<HASH_SIZE. \<forall>a\<in>set (groups_hash s i). group_ok cfg (group_mem s a)) \<and>
     group_ok cfg (routers_group s)"

definition bitmask_exact :: "config \<Rightarrow> group_entry \<Rightarrow> bool" where
  "bitmask_exact cfg g \<longleftrightarrow>
     (\<forall>p. bit (portmap g) p \<longleftrightarrow> p \<le> PORT_MAX cfg \<and> group_members g p \<noteq> [])"

text \<open>Every group entry linked into the pool queue or a hash chain, and the router state.\<close>

definition bitmasks_exact :: "config \<Rightarrow> cache \<Rightarrow> bool" where
  "bitmasks_exact cfg s \<longleftrightarrow>
     (\<forall>a\<in>set (groups_pool s). bitmask_exact cfg (group_mem s a)) \<and>
     (\<forall>i<HASH_SIZE. \<forall>a\<in>set (groups_hash s i). bitmask_exact cfg (group_mem s a)) \<and>
     bitmask_exact cfg (routers_group s)"

text \<open>A configuration to run the model on: nine ports, ten ticks a second.\<close>

definition example_config :: config where
  "example_config = \<lparr>PORT_MAX = 8, TIMER_HZ = 10, ether_hash = unat\<rparr>"

text \<open>
  The entry \<^verbatim>\<open>get_group\<close> finds for an address without allocating, and the port map of
  the group of an address, 0 when it has no entry.
\<close>

definition lookup_group :: "config \<Rightarrow> ether_addr \<Rightarrow> cache \<Rightarrow> nat option" where
  "lookup_group cfg ea s =
     find (\<lambda>a. group_ea (group_mem s a) = ea) (groups_hash s (HASH_INDEX cfg ea))"

definition group_bitmask :: "config \<Rightarrow> ether_addr \<Rightarrow> cache \<Rightarrow> cint" where
  "group_bitmask cfg ea s =
     (case lookup_group cfg ea s of Some g \<Rightarrow> portmap (group_mem s g) | None \<Rightarrow> 0)"

text \<open>The host entry \<^verbatim>\<open>get_host\<close> finds for an address in its hash chain.\<close>

definition lookup_host :: "config \<Rightarrow> ether_addr \<Rightarrow> cache \<Rightarrow> nat option" where
  "lookup_host cfg ea s =
     find (\<lambda>a. host_ea (host_mem s a) = ea) (hosts_hash s (HASH_INDEX cfg ea))"

text \<open>The calls into the switch driver made between two states.\<close>

definition new_calls :: "cache \<Rightarrow> cache \<Rightarrow> switch_call list" where
  "new_calls s s' = drop (length (switch_log s)) (switch_log s')"

text \<open>
  A driver instruction takes port \<open>p\<close> out of a forwarding mask when it removes a mask
  that holds \<open>p\<close> or clears the whole entry.
\<close>

fun removes_port :: "nat \<Rightarrow> switch_call \<Rightarrow> bool" where
  "removes_port p (Switch_del_portmap ea m) = bit m p"
| "removes_port p (Switch_clr_portmap ea) = True"
| "removes_port p (Switch_add_portmap ea m) = False"
| "removes_port p (Switch_get_port ea) = False"

text \<open>What an operation returned, and the state it left or faulted in.\<close>

definition returned :: "(fault \<times> cache) + ('a \<times> cache) \<Rightarrow> 'a option" where
  "returned x = (case x of Inl _ \<Rightarrow> None | Inr (r, _) \<Rightarrow> Some r)"

definition faulted :: "(fault \<times> cache) + 'a \<Rightarrow> fault option" where
  "faulted x = (case x of Inl (f, _) \<Rightarrow> Some f | Inr _ \<Rightarrow> None)"

definition state_of :: "(fault \<times> cache) + ('a \<times> cache) \<Rightarrow> cache" where
  "state_of x = (case x of Inl (_, s) \<Rightarrow> s | Inr (_, s) \<Rightarrow> s)"

definition final_state :: "(fault \<times> cache) + cache \<Rightarrow> cache" where
  "final_state x = (case x of Inl (_, s) \<Rightarrow> s | Inr s \<Rightarrow> s)"

text \<open>
  Membership as \<^verbatim>\<open>get_member\<close> sees it: the address is on the list of the port of the
  group of \<open>maddr\<close>; and a group without any member on any port.
\<close>

definition member_present :: "config \<Rightarrow> ether_addr \<Rightarrow> in_addr \<Rightarrow> nat \<Rightarrow> cache \<Rightarrow> bool" where
  "member_present cfg maddr addr port s =
     (case lookup_group cfg maddr s of
        None \<Rightarrow> False
      | Some g \<Rightarrow> find_member addr (group_members (group_mem s g) port) \<noteq> None)"

definition no_members :: "config \<Rightarrow> ether_addr \<Rightarrow> cache \<Rightarrow> bool" where
  "no_members cfg maddr s =
     (case lookup_group cfg maddr s of
        None \<Rightarrow> True
      | Some g \<Rightarrow> (\<forall>p\<in>{0..PORT_MAX cfg}. group_members (group_mem s g) p = []))"

definition no_other_members :: "config \<Rightarrow> ether_addr \<Rightarrow> in_addr \<Rightarrow> nat \<Rightarrow> cache \<Rightarrow> bool" where
  "no_other_members cfg maddr addr port s =
     (case lookup_group cfg maddr s of
        None \<Rightarrow> True
      | Some g \<Rightarrow>
         (\<forall>p\<in>{0..PORT_MAX cfg}. \<forall>m\<in>set (group_members (group_mem s g) p).
             p = port \<and> member_addr m = addr))"

text \<open>
  States to run the operations on: group 1 with the one member 7 on port 2, and the same
  with a router seen on port 2 before.
\<close>

definition one_member_state :: cache where
  "one_member_state =
     final_state (run_all example_config [Add_member 100 True True 1 7 2 50]
       (init_cache example_config))"

definition router_member_state :: cache where
  "router_member_state =
     final_state (run_all example_config
       [Add_router 100 True 9 2 50, Add_member 100 True True 1 7 2 50]
       (init_cache example_config))"

text \<open>
  Host 5 cached at tick 100; and group 1 after its only member was added and removed
  again, an entry with an empty port map.
\<close>

definition one_host_state :: cache where
  "one_host_state =
     final_state (run_all example_config [Get_port 100 True 3 5] (init_cache example_config))"

definition empty_group_state :: cache where
  "empty_group_state =
     final_state (run_all example_config
       [Add_member 100 True True 1 7 2 50, Del_member 1 7 2] (init_cache example_config))"

text \<open>A router seen on port 2 and group 1 with the one member 7 on port 3.\<close>

definition router_other_port_state :: cache where
  "router_other_port_state =
     final_state (run_all example_config
       [Add_router 100 True 9 2 50, Add_member 100 True True 1 7 3 50]
       (init_cache example_config))"

text \<open>
  What an operation outside the host table leaves of it: the host entries and the hash
  chains as they were, and no address given out twice. And the shape of the chains in
  every state the operations reach: they hold addresses that \<^verbatim>\<open>calloc\<close> has given out.
\<close>

definition host_frame :: "cache \<Rightarrow> cache \<Rightarrow> bool" where
  "host_frame s s' \<longleftrightarrow> host_mem s' = host_mem s \<and> hosts_hash s' = hosts_hash s \<and> brk s \<le> brk s'"



section \<open>Properties\<close>

subsection \<open>Port maps\<close>

lemma fold_portmap_bit:
  "bit (fold (\<lambda>port pm. if ms port \<noteq> [] then pm OR push_bit port 1 else pm) [0..<n] (acc::cint)) p
    \<longleftrightarrow> bit acc p \<or> (p < n \<and> p < 32 \<and> ms p \<noteq> [])"
proof (induction n)
  case 0
  then show ?case by simp
next
  case (Suc n)
  have "bit (push_bit n (1::cint)) p \<longleftrightarrow> p = n \<and> p < 32"
    by (auto simp add: bit_simps)
  with Suc show ?case
    by (simp only: upt_Suc_append[OF le0] fold_append o_apply fold_simps bit_or_iff split: if_split)
       (auto simp: less_Suc_eq)
qed

lemma get_portmap_bit:
  "bit (get_portmap cfg g) p \<longleftrightarrow> p \<le> PORT_MAX cfg \<and> p < 32 \<and> group_members g p \<noteq> []"
  using fold_portmap_bit[of "group_members g" "Suc (PORT_MAX cfg)" 0 p]
  by (simp only: get_portmap_def) auto

lemma get_portmap_cong:
  "group_members g = group_members g' \<Longrightarrow> get_portmap cfg g = get_portmap cfg g'"
  by (simp add: get_portmap_def)

lemma clear_upto_Suc:
  "(\<lambda>p. if p < n then [] else f p)(n := []) = (\<lambda>p. if p < Suc n then [] else f p)"
  by (auto simp: fun_eq_iff)

lemma consume_group_fold:
  "fold (\<lambda>port (g, s'). (g\<lparr>group_members := (group_members g)(port := [])\<rparr>,
             s'\<lparr>members_free := rev (group_members g port) @ members_free s'\<rparr>)) [0..<n] (g0, s)
   = (g0\<lparr>group_members := (\<lambda>p. if p < n then [] else group_members g0 p)\<rparr>,
      s\<lparr>members_free := concat (map (\<lambda>p. rev (group_members g0 p)) (rev [0..<n])) @ members_free s\<rparr>)"
proof (induction n)
  case 0
  then show ?case by simp
next
  case (Suc n)
  show ?case
    by (simp only: upt_Suc_append[OF le0] fold_append o_apply fold_simps Suc prod.case)
       (simp add: clear_upto_Suc del: fun_upd_apply)
qed

lemma init_group_fold:
  "fold (\<lambda>port g. g\<lparr>group_members := (group_members g)(port := [])\<rparr>) [0..<n] g0
   = g0\<lparr>group_members := (\<lambda>p. if p < n then [] else group_members g0 p)\<rparr>"
proof (induction n)
  case 0
  then show ?case by simp
next
  case (Suc n)
  show ?case
    by (simp only: upt_Suc_append[OF le0] fold_append o_apply fold_simps Suc)
       (simp add: clear_upto_Suc del: fun_upd_apply)
qed

lemma consume_group_eq:
  "consume_group cfg g s =
    (g\<lparr>portmap := 0, group_members := (\<lambda>p. if p < Suc (PORT_MAX cfg) then [] else group_members g p)\<rparr>,
     s\<lparr>members_free := concat (map (\<lambda>p. rev (group_members g p)) (rev [0..<Suc (PORT_MAX cfg)]))
          @ members_free s\<rparr>)"
proof -
  have "group_members (g\<lparr>portmap := 0\<rparr>) = group_members g" by simp
  then show ?thesis
    unfolding consume_group_def by (simp only: consume_group_fold)
qed

lemma init_group_eq:
  "init_group cfg g =
    g\<lparr>portmap := 0, group_members := (\<lambda>p. if p < Suc (PORT_MAX cfg) then [] else group_members g p)\<rparr>"
proof -
  have "group_members (g\<lparr>portmap := 0\<rparr>) = group_members g" by simp
  then show ?thesis
    unfolding init_group_def by (simp only: init_group_fold)
qed

lemma get_portmap_cleared:
  "get_portmap cfg (g\<lparr>group_members := (\<lambda>p. if p < Suc (PORT_MAX cfg) then [] else f p)\<rparr>) = 0"
  by (rule bit_eqI) (simp add: get_portmap_bit)

lemma group_ok_recompute: "group_ok cfg (g\<lparr>portmap := get_portmap cfg g\<rparr>)"
  by (simp add: group_ok_def get_portmap_def)

lemma group_ok_consume: "group_ok cfg (fst (consume_group cfg g s))"
  by (simp add: consume_group_eq group_ok_def get_portmap_cleared)

lemma group_ok_init: "group_ok cfg (init_group cfg g)"
  by (simp add: init_group_eq group_ok_def get_portmap_cleared)

lemma group_ok_fields [simp]:
  "group_ok cfg (g\<lparr>group_time := t\<rparr>) = group_ok cfg g"
  "group_ok cfg (g\<lparr>group_ea := e\<rparr>) = group_ok cfg g"
  by (simp_all add: group_ok_def get_portmap_def)

lemma consume_group_frame:
  "consume_group cfg g s = (g', s') \<Longrightarrow>
     group_mem s' = group_mem s \<and> groups_pool s' = groups_pool s \<and> groups_hash s' = groups_hash s \<and>
     routers_group s' = routers_group s \<and> switch_log s' = switch_log s \<and>
     groups_timer s' = groups_timer s \<and> routers_timer s' = routers_timer s \<and>
     group_ea g' = group_ea g \<and> group_time g' = group_time g \<and> portmap g' = 0 \<and> group_ok cfg g'"
  using group_ok_consume[of cfg g s] by (auto simp: consume_group_eq)

lemma cache_inv_init: "cache_inv cfg (init_cache cfg)"
  by (simp add: cache_inv_def init_cache_def group_ok_init)

lemma cache_inv_frame:
  assumes "cache_inv cfg s"
    and "set (groups_pool s') \<subseteq> set (groups_pool s) \<union> A"
    and "\<And>i. i < HASH_SIZE \<Longrightarrow> set (groups_hash s' i) \<subseteq> set (groups_hash s i) \<union> A"
    and "\<And>a. a \<notin> A \<Longrightarrow> group_mem s' a = group_mem s a"
    and "\<And>a. a \<in> A \<Longrightarrow> group_ok cfg (group_mem s' a)"
    and "group_ok cfg (routers_group s')"
  shows "cache_inv cfg s'"
  using assms unfolding cache_inv_def
  by (metis (no_types, lifting) Un_iff subsetD)

lemma get_group_inv:
  assumes "get_group cfg c ea al s = Inr (r, s1)" "cache_inv cfg s"
  shows "cache_inv cfg s1"
proof (cases "find (\<lambda>a. group_ea (group_mem s a) = ea) (groups_hash s (HASH_INDEX cfg ea))")
  case (Some g)
  with assms show ?thesis by (simp add: get_group_def)
next
  case None
  show ?thesis
  proof (cases "al \<and> groups_count s < GROUP_POOL_SIZE \<and> c")
    case True
    with None assms(1) have s1: "s1 = s\<lparr>group_mem := (group_mem s)(brk s := (init_group cfg zero_group)\<lparr>group_ea := ea\<rparr>),
        brk := Suc (brk s), groups_count := Suc (groups_count s),
        groups_hash := (groups_hash s)(HASH_INDEX cfg ea := brk s # groups_hash s (HASH_INDEX cfg ea)),
        groups_pool := groups_pool s @ [brk s]\<rparr>"
      by (auto simp add: get_group_def Let_def)
    show ?thesis
      by (rule cache_inv_frame[OF assms(2), where A="{brk s}"])
         (use assms(2) in \<open>auto simp: s1 group_ok_init cache_inv_def\<close>)
  next
    case False
    with None assms(1) have "s1 = s"
      by (auto simp add: get_group_def Let_def split: if_splits option.splits)
    with assms show ?thesis by simp
  qed
qed

lemma get_member_frame:
  assumes "get_member g addr p al c s = (m, g', s')"
  shows "group_mem s' = group_mem s" "groups_pool s' = groups_pool s" "groups_hash s' = groups_hash s"
    "routers_group s' = routers_group s" "switch_log s' = switch_log s"
    "groups_timer s' = groups_timer s" "routers_timer s' = routers_timer s"
    "groups_count s' = groups_count s" "brk s' = brk s"
    "host_mem s' = host_mem s" "hosts_pool s' = hosts_pool s" "hosts_hash s' = hosts_hash s"
    "hosts_count s' = hosts_count s"
    "portmap g' = portmap g" "group_time g' = group_time g" "group_ea g' = group_ea g"
  using assms
  by (auto simp: get_member_def Let_def split: option.splits if_splits list.splits)

lemma add_member_fields:
  assumes "add_member cfg t cg cm maddr addr port timeout s = Inr (r, s')"
    and "get_group cfg cg maddr True s = Inr (Some g, s1)"
    and "0 \<le> port" "port \<le> int (PORT_MAX cfg)"
  shows "groups_pool s' = groups_pool s1" "groups_hash s' = groups_hash s1"
    "routers_group s' = routers_group s1"
    "\<And>a. a \<noteq> g \<Longrightarrow> group_mem s' a = group_mem s1 a"
    "group_ok cfg (group_mem s' g)"
proof -
  obtain m grp2 s2 where gm:
    "get_member ((group_mem s1 g)\<lparr>group_time := t + timeout\<rparr>) addr (nat port) True cm s1 = (m, grp2, s2)"
    by (metis prod_cases3)
  note fr = get_member_frame[OF gm]
  from assms gm show "groups_pool s' = groups_pool s1" "groups_hash s' = groups_hash s1"
    "routers_group s' = routers_group s1"
    "\<And>a. a \<noteq> g \<Longrightarrow> group_mem s' a = group_mem s1 a"
    "group_ok cfg (group_mem s' g)"
    by (auto simp: add_member_def Let_def switch_call_def fr group_ok_recompute split: if_splits)
qed

lemma add_member_inv:
  assumes "add_member cfg t cg cm maddr addr port timeout s = Inr (r, s')" "cache_inv cfg s"
  shows "cache_inv cfg s'"
proof (cases "0 \<le> port \<and> port \<le> int (PORT_MAX cfg)")
  case False
  with assms show ?thesis by (auto simp: add_member_def)
next
  case True
  show ?thesis
  proof (cases "get_group cfg cg maddr True s")
    case (Inl f)
    with assms True show ?thesis by (auto simp: add_member_def)
  next
    case (Inr x)
    obtain go s1 where x: "x = (go, s1)" by (cases x)
    have inv1: "cache_inv cfg s1" using get_group_inv[OF Inr[unfolded x] assms(2)] .
    show ?thesis
    proof (cases go)
      case None
      with assms True Inr x inv1 show ?thesis by (auto simp: add_member_def)
    next
      case (Some g)
      note f = add_member_fields[OF assms(1) Inr[unfolded x Some]]
      from True show ?thesis
        by (intro cache_inv_frame[OF inv1, where A="{g}"]) (use inv1 in \<open>auto simp: f cache_inv_def\<close>)
    qed
  qed
qed

lemma get_group_no_alloc:
  "get_group cfg c ea False s =
     Inr (find (\<lambda>a. group_ea (group_mem s a) = ea) (groups_hash s (HASH_INDEX cfg ea)), s)"
  by (simp add: get_group_def Let_def split: option.splits)

lemma consume_member_frame:
  assumes "consume_member g p i s = (g', s')"
  shows "group_mem s' = group_mem s" "groups_pool s' = groups_pool s" "groups_hash s' = groups_hash s"
    "routers_group s' = routers_group s" "switch_log s' = switch_log s"
    "groups_timer s' = groups_timer s" "routers_timer s' = routers_timer s"
    "portmap g' = portmap g" "group_time g' = group_time g" "group_ea g' = group_ea g"
  using assms by (auto simp: consume_member_def Let_def)

lemma del_member_report_frame [simp]:
  "group_mem (snd (del_member_report maddr pm s)) = group_mem s"
  "groups_pool (snd (del_member_report maddr pm s)) = groups_pool s"
  "groups_hash (snd (del_member_report maddr pm s)) = groups_hash s"
  "routers_group (snd (del_member_report maddr pm s)) = routers_group s"
  by (simp_all add: del_member_report_def Let_def switch_call_def)

lemma del_member_fields:
  assumes "del_member cfg maddr addr port s = Inr (r, s')"
    and "find (\<lambda>a. group_ea (group_mem s a) = maddr) (groups_hash s (HASH_INDEX cfg maddr)) = Some g"
    and "0 \<le> port" "port \<le> int (PORT_MAX cfg)"
  shows "groups_pool s' = groups_pool s" "groups_hash s' = groups_hash s"
    "routers_group s' = routers_group s"
    "\<And>a. a \<noteq> g \<Longrightarrow> group_mem s' a = group_mem s a"
    "group_ok cfg (group_mem s' g)"
proof -
  obtain m grp1 s2 where gm:
    "get_member (group_mem s g) addr (nat port) False False s = (m, grp1, s2)"
    by (metis prod_cases3)
  obtain grp2 s3 where cm:
    "(case m of Some i \<Rightarrow> consume_member grp1 (nat port) i s2 | None \<Rightarrow> (grp1, s2)) = (grp2, s3)"
    by (metis surj_pair)
  obtain grp4 s4 where cg: "consume_group cfg (grp2\<lparr>portmap := get_portmap cfg grp2\<rparr>) s3 = (grp4, s4)"
    by (metis surj_pair)
  note fr1 = get_member_frame[OF gm]
  have fr2: "group_mem s3 = group_mem s2" "groups_pool s3 = groups_pool s2" "groups_hash s3 = groups_hash s2"
    "routers_group s3 = routers_group s2"
    using cm by (auto split: option.splits dest: consume_member_frame)
  note fr3 = consume_group_frame[OF cg]
  define pm1 where "pm1 = (portmap (group_mem s g) XOR get_portmap cfg grp2) AND portmap (group_mem s g)"
  define grp5 where "grp5 = (if pm1 \<noteq> 0 \<and> get_portmap cfg grp2 = 0 then grp4
      else grp2\<lparr>portmap := get_portmap cfg grp2\<rparr>)"
  define s5 where "s5 = (if pm1 \<noteq> 0 \<and> get_portmap cfg grp2 = 0 then s4 else s3)"
  have s': "s' = snd (del_member_report maddr pm1 (s5\<lparr>group_mem := (group_mem s5)(g := grp5)\<rparr>))"
    using assms gm cm cg
    by (auto simp: del_member_def get_group_no_alloc Let_def pm1_def grp5_def s5_def)
  have s5: "groups_pool s5 = groups_pool s" "groups_hash s5 = groups_hash s"
    "routers_group s5 = routers_group s" "group_mem s5 = group_mem s"
    by (simp_all add: s5_def fr1 fr2 fr3)
  have grp5: "group_ok cfg grp5"
    by (simp add: grp5_def fr3 group_ok_recompute)
  show "groups_pool s' = groups_pool s" "groups_hash s' = groups_hash s"
    "routers_group s' = routers_group s"
    "\<And>a. a \<noteq> g \<Longrightarrow> group_mem s' a = group_mem s a"
    "group_ok cfg (group_mem s' g)"
    by (simp_all add: s' s5 grp5)
qed

lemma del_member_inv:
  assumes "del_member cfg maddr addr port s = Inr (r, s')" "cache_inv cfg s"
  shows "cache_inv cfg s'"
proof (cases "0 \<le> port \<and> port \<le> int (PORT_MAX cfg)")
  case False
  with assms show ?thesis by (auto simp: del_member_def)
next
  case True
  show ?thesis
  proof (cases "find (\<lambda>a. group_ea (group_mem s a) = maddr) (groups_hash s (HASH_INDEX cfg maddr))")
    case None
    with assms True show ?thesis
      by (auto simp: del_member_def get_group_no_alloc del_member_report_def)
  next
    case (Some g)
    note f = del_member_fields[OF assms(1) Some]
    from True show ?thesis
      by (intro cache_inv_frame[OF assms(2), where A="{g}"]) (use assms(2) in \<open>auto simp: f cache_inv_def\<close>)
  qed
qed

lemma group_timer_step_inv:
  assumes "group_timer_step cfg t a (e, s) = (e', s')" "cache_inv cfg s"
  shows "cache_inv cfg s'"
proof -
  obtain g1 s1 where cg: "consume_group cfg (group_mem s a) s = (g1, s1)" by (metis surj_pair)
  note fr = consume_group_frame[OF cg]
  have "s' = s \<or> (groups_pool s' = groups_pool s \<and> groups_hash s' = groups_hash s \<and>
      routers_group s' = routers_group s \<and> group_mem s' = (group_mem s)(a := g1))"
    using assms(1) cg
    by (auto simp: group_timer_step_def Let_def switch_call_def fr split: if_splits)
  then show ?thesis
  proof
    assume "s' = s" with assms show ?thesis by simp
  next
    assume *: "groups_pool s' = groups_pool s \<and> groups_hash s' = groups_hash s \<and>
      routers_group s' = routers_group s \<and> group_mem s' = (group_mem s)(a := g1)"
    show ?thesis
      by (intro cache_inv_frame[OF assms(2), where A="{a}"]) (use assms(2) in \<open>auto simp: * fr cache_inv_def\<close>)
  qed
qed

lemma group_timer_step_pool:
  "group_timer_step cfg t a (e, s) = (e', s') \<Longrightarrow> groups_pool s' = groups_pool s"
  by (auto simp: group_timer_step_def Let_def switch_call_def consume_group_eq split: if_splits)

lemma group_timer_fold_inv:
  "cache_inv cfg s \<Longrightarrow> cache_inv cfg (snd (fold (group_timer_step cfg t) as (e, s)))"
proof (induction as arbitrary: e s)
  case Nil
  then show ?case by simp
next
  case (Cons a as)
  obtain e1 s1 where st: "group_timer_step cfg t a (e, s) = (e1, s1)" by (metis surj_pair)
  from group_timer_step_inv[OF st Cons.prems] Cons.IH[of s1 e1] st show ?case by simp
qed

lemma cache_inv_timer [simp]:
  "cache_inv cfg (s\<lparr>groups_timer := x\<rparr>) = cache_inv cfg s"
  "cache_inv cfg (s\<lparr>routers_timer := y\<rparr>) = cache_inv cfg s"
  "cache_inv cfg (s\<lparr>switch_log := l\<rparr>) = cache_inv cfg s"
  "cache_inv cfg (s\<lparr>members_free := fr\<rparr>) = cache_inv cfg s"
  by (simp_all add: cache_inv_def)

lemma group_timer_inv: "cache_inv cfg s \<Longrightarrow> cache_inv cfg (group_timer cfg t s)"
  using group_timer_fold_inv[of cfg s t "groups_pool s" "t + ULONG_HALF"]
  by (auto simp: group_timer_def Let_def split: prod.splits)

lemma cache_inv_set_time:
  "cache_inv cfg s \<Longrightarrow>
   cache_inv cfg (s\<lparr>group_mem := (group_mem s)(g := (group_mem s g)\<lparr>group_time := t\<rparr>)\<rparr>)"
  by (auto simp: cache_inv_def)

lemma cache_inv_set_time_all:
  "cache_inv cfg s \<Longrightarrow>
   cache_inv cfg (fold (\<lambda>a s'. s'\<lparr>group_mem := (group_mem s')(a := (group_mem s' a)\<lparr>group_time := t\<rparr>)\<rparr>) as s)"
proof (induction as arbitrary: s)
  case Nil
  then show ?case by simp
next
  case (Cons a as)
  from Cons.IH[OF cache_inv_set_time[OF Cons.prems, of a t]] show ?case
    by (simp only: fold_simps comp_apply)
qed

lemma cache_inv_expire_reschedule [simp]:
  "cache_inv cfg (expire_reschedule t s) = cache_inv cfg s"
  by (simp add: expire_reschedule_def)

lemma expire_members_inv:
  assumes "expire_members cfg t maddr timeout s = Inr (r, s')" "cache_inv cfg s"
  shows "cache_inv cfg s'"
  using assms cache_inv_set_time_all[OF assms(2), of "t + timeout" "groups_pool s"]
    cache_inv_set_time[OF assms(2), of _ "t + timeout"]
  by (auto simp: expire_members_def get_group_no_alloc Let_def split: option.splits)

lemma sweep_port_frame:
  assumes "sweep_port t p (g, s) = (g', s')"
  shows "group_mem s' = group_mem s" "groups_pool s' = groups_pool s" "groups_hash s' = groups_hash s"
    "switch_log s' = switch_log s" "portmap g' = portmap g" "group_ea g' = group_ea g"
  using assms by (auto simp: sweep_port_def Let_def split: prod.splits)

lemma sweep_fold_frame:
  "fold (sweep_port t) ps (g, s) = (g', s') \<Longrightarrow>
    group_mem s' = group_mem s \<and> groups_pool s' = groups_pool s \<and> groups_hash s' = groups_hash s \<and>
    switch_log s' = switch_log s \<and> portmap g' = portmap g \<and> group_ea g' = group_ea g"
proof (induction ps arbitrary: g s)
  case Nil
  then show ?case by simp
next
  case (Cons p ps)
  obtain g1 s1 where st: "sweep_port t p (g, s) = (g1, s1)" by (metis surj_pair)
  from Cons.IH[of g1 s1] Cons.prems sweep_port_frame[OF st] st show ?case by simp
qed

lemma router_del_step_frame:
  "group_mem (router_del_step pm a s) = group_mem s"
  "groups_pool (router_del_step pm a s) = groups_pool s"
  "groups_hash (router_del_step pm a s) = groups_hash s"
  "routers_group (router_del_step pm a s) = routers_group s"
  by (simp_all add: router_del_step_def Let_def switch_call_def)

lemma router_del_fold_frame:
  "group_mem (fold (router_del_step pm) as s) = group_mem s \<and>
   groups_pool (fold (router_del_step pm) as s) = groups_pool s \<and>
   groups_hash (fold (router_del_step pm) as s) = groups_hash s \<and>
   routers_group (fold (router_del_step pm) as s) = routers_group s"
  by (induction as arbitrary: s) (simp_all add: router_del_step_frame)

lemma router_add_step_frame:
  "group_mem (router_add_step pm a s) = group_mem s"
  "groups_pool (router_add_step pm a s) = groups_pool s"
  "groups_hash (router_add_step pm a s) = groups_hash s"
  "routers_group (router_add_step pm a s) = routers_group s"
  by (simp_all add: router_add_step_def Let_def switch_call_def)

lemma router_add_fold_frame:
  "group_mem (fold (router_add_step pm) as s) = group_mem s \<and>
   groups_pool (fold (router_add_step pm) as s) = groups_pool s \<and>
   groups_hash (fold (router_add_step pm) as s) = groups_hash s \<and>
   routers_group (fold (router_add_step pm) as s) = routers_group s"
  by (induction as arbitrary: s) (simp_all add: router_add_step_frame)

lemma cache_inv_routers:
  "cache_inv cfg s \<Longrightarrow> group_mem s' = group_mem s \<Longrightarrow> groups_pool s' = groups_pool s \<Longrightarrow>
   groups_hash s' = groups_hash s \<Longrightarrow> group_ok cfg (routers_group s') \<Longrightarrow> cache_inv cfg s'"
  by (simp add: cache_inv_def)

lemma get_host_frame:
  assumes "get_host cfg c ea t s = Inr (h, s')"
  shows "group_mem s' = group_mem s" "groups_pool s' = groups_pool s" "groups_hash s' = groups_hash s"
    "routers_group s' = routers_group s" "switch_log s' = switch_log s"
  using assms
  by (auto simp: get_host_def Let_def split: option.splits if_splits prod.splits)

lemma get_port_frame:
  assumes "get_port cfg t c sw ea s = Inr (r, s')"
  shows "group_mem s' = group_mem s" "groups_pool s' = groups_pool s" "groups_hash s' = groups_hash s"
    "routers_group s' = routers_group s"
proof -
  from assms obtain h s1 where gh: "get_host cfg c ea t s = Inr (h, s1)"
    by (auto simp: get_port_def split: sum.splits)
  note fr = get_host_frame[OF gh]
  have "s' = s1 \<or> (\<exists>hm. s' = (switch_call (Switch_get_port ea) s1)\<lparr>host_mem := hm\<rparr>)
      \<or> s' = switch_call (Switch_get_port ea) s1"
    using assms gh by (auto simp: get_port_def Let_def split: option.splits if_splits)
  with fr show "group_mem s' = group_mem s" "groups_pool s' = groups_pool s"
    "groups_hash s' = groups_hash s" "routers_group s' = routers_group s"
    by (auto simp: switch_call_def)
qed

lemma cleared_not_set: "((a XOR b) AND a) AND b = (0::cint)"
  by (rule bit_eqI) (auto simp: bit_simps)

lemma router_timer_shape:
  "router_timer cfg t s = s \<or>
   (\<exists>pm1 s1. router_timer cfg t s = (if pm1 \<noteq> 0 then fold (router_del_step pm1) (groups_pool s1) s1 else s1) \<and>
      group_mem s1 = group_mem s \<and> groups_pool s1 = groups_pool s \<and> groups_hash s1 = groups_hash s \<and>
      group_ok cfg (routers_group s1) \<and> switch_log s1 = switch_log s \<and>
      pm1 AND portmap (routers_group s1) = 0)"
proof -
  let ?grp = "routers_group s"
  obtain g2 s2 where sw: "fold (sweep_port t) [0..<Suc (PORT_MAX cfg)]
      (?grp\<lparr>group_time := t + ULONG_HALF\<rparr>, s) = (g2, s2)" by (metis surj_pair)
  obtain g4 s4 where c1: "consume_group cfg (g2\<lparr>portmap := get_portmap cfg g2\<rparr>) s2 = (g4, s4)"
    by (metis surj_pair)
  obtain g5 s5 where c2: "consume_group cfg ?grp s = (g5, s5)" by (metis surj_pair)
  note f1 = sweep_fold_frame[OF sw] and f2 = consume_group_frame[OF c1] and f3 = consume_group_frame[OF c2]
  consider (neg) "sint (portmap ?grp) < 0"
    | (keep) "\<not> sint (portmap ?grp) < 0" "time_after (group_time ?grp) t" "get_portmap cfg g2 \<noteq> 0"
    | (empty) "\<not> sint (portmap ?grp) < 0" "time_after (group_time ?grp) t" "get_portmap cfg g2 = 0"
    | (late) "\<not> sint (portmap ?grp) < 0" "\<not> time_after (group_time ?grp) t"
    by blast
  then show ?thesis
  proof cases
    case neg
    then show ?thesis by (simp add: router_timer_def)
  next
    case keep
    let ?s1 = "s2\<lparr>routers_group := g2\<lparr>portmap := get_portmap cfg g2\<rparr>,
                   routers_timer := mod_timer (routers_timer s2) (group_time g2)\<rparr>"
    let ?pm1 = "(portmap ?grp XOR get_portmap cfg g2) AND portmap ?grp"
    have "router_timer cfg t s =
        (if ?pm1 \<noteq> 0 then fold (router_del_step ?pm1) (groups_pool ?s1) ?s1 else ?s1)"
      using keep sw by (simp add: router_timer_def Let_def del: upt_Suc)
    then show ?thesis
      using f1 by (intro disjI2 exI[of _ ?pm1] exI[of _ ?s1]) (simp add: group_ok_recompute cleared_not_set)
  next
    case empty
    let ?s1 = "s4\<lparr>routers_group := g4\<rparr>"
    let ?pm1 = "(portmap ?grp XOR get_portmap cfg g2) AND portmap ?grp"
    have "router_timer cfg t s =
        (if ?pm1 \<noteq> 0 then fold (router_del_step ?pm1) (groups_pool ?s1) ?s1 else ?s1)"
      using empty sw c1 by (simp add: router_timer_def Let_def del: upt_Suc)
    then show ?thesis
      using f1 f2 by (intro disjI2 exI[of _ ?pm1] exI[of _ ?s1]) simp
  next
    case late
    let ?s1 = "s5\<lparr>routers_group := g5\<rparr>"
    have "router_timer cfg t s =
        (if portmap ?grp \<noteq> 0 then fold (router_del_step (portmap ?grp)) (groups_pool ?s1) ?s1 else ?s1)"
      using late c2 by (simp add: router_timer_def Let_def del: upt_Suc)
    then show ?thesis
      using f3 by (intro disjI2 exI[of _ "portmap ?grp"] exI[of _ ?s1]) simp
  qed
qed

lemma router_timer_inv:
  assumes "cache_inv cfg s"
  shows "cache_inv cfg (router_timer cfg t s)"
proof -
  from router_timer_shape[of cfg t s]
  consider "router_timer cfg t s = s"
    | pm1 s1 where "router_timer cfg t s = (if pm1 \<noteq> 0 then fold (router_del_step pm1) (groups_pool s1) s1 else s1)"
      "group_mem s1 = group_mem s" "groups_pool s1 = groups_pool s" "groups_hash s1 = groups_hash s"
      "group_ok cfg (routers_group s1)"
    by blast
  then show ?thesis
  proof cases
    case 1
    with assms show ?thesis by simp
  next
    case 2
    show ?thesis
      by (rule cache_inv_routers[OF assms]) (simp_all add: 2 router_del_fold_frame)
  qed
qed

lemma add_router_shape:
  "\<exists>pm1 s1. snd (add_router cfg t cm addr port timeout s)
       = (if pm1 \<noteq> 0 then fold (router_add_step pm1) (groups_pool s1) s1 else s1) \<and>
      group_mem s1 = group_mem s \<and> groups_pool s1 = groups_pool s \<and> groups_hash s1 = groups_hash s \<and>
      (group_ok cfg (routers_group s) \<longrightarrow> group_ok cfg (routers_group s1)) \<and>
      switch_log s1 = switch_log s"
proof (cases "port < 0 \<or> port > int (PORT_MAX cfg)")
  case True
  then have "snd (add_router cfg t cm addr port timeout s) =
      (if (0::cint) \<noteq> 0 then fold (router_add_step 0) (groups_pool s) s else s)"
    by (simp add: add_router_def)
  then show ?thesis by blast
next
  case False
  obtain m grp2 s2 where gm:
    "get_member ((routers_group s)\<lparr>group_time := t + timeout\<rparr>) addr (nat port) True cm s = (m, grp2, s2)"
    by (metis prod_cases3)
  note fr = get_member_frame[OF gm]
  define grp3 where "grp3 = (case m of
                      Some i \<Rightarrow>
                        grp2\<lparr>group_members := (group_members grp2)
                          (nat port := update_nth i (\<lambda>m. m\<lparr>member_time := group_time grp2\<rparr>)
                                         (group_members grp2 (nat port)))\<rparr>
                    | None \<Rightarrow> grp2)"
  define grp4 where "grp4 = grp3\<lparr>portmap := get_portmap cfg grp3\<rparr>"
  define s4 where "s4 = (if \<not> timer_pending (routers_timer s2) \<or> time_after (expires (routers_timer s2)) (group_time grp4)
                  then s2\<lparr>routers_group := grp4, routers_timer := mod_timer (routers_timer s2) (group_time grp4)\<rparr>
                  else s2\<lparr>routers_group := grp4\<rparr>)"
  let ?pm1 = "(portmap (routers_group s) XOR portmap grp4) AND portmap grp4"
  have "snd (add_router cfg t cm addr port timeout s) =
      (if ?pm1 \<noteq> 0 then fold (router_add_step ?pm1) (groups_pool s4) s4 else s4)"
    using False gm by (simp add: add_router_def Let_def grp3_def grp4_def s4_def)
  moreover have "group_mem s4 = group_mem s" "groups_pool s4 = groups_pool s" "groups_hash s4 = groups_hash s"
    "group_ok cfg (routers_group s4)" "switch_log s4 = switch_log s"
    by (simp_all add: s4_def fr grp4_def group_ok_recompute)
  ultimately show ?thesis by (intro exI[of _ ?pm1] exI[of _ s4]) simp
qed

lemma add_router_inv:
  assumes "cache_inv cfg s"
  shows "cache_inv cfg (snd (add_router cfg t cm addr port timeout s))"
proof -
  from add_router_shape[of cfg t cm addr port timeout s] assms
  obtain pm1 s1 where *: "snd (add_router cfg t cm addr port timeout s)
       = (if pm1 \<noteq> 0 then fold (router_add_step pm1) (groups_pool s1) s1 else s1)"
      "group_mem s1 = group_mem s" "groups_pool s1 = groups_pool s" "groups_hash s1 = groups_hash s"
      "group_ok cfg (routers_group s1)"
    by (auto simp: cache_inv_def)
  show ?thesis
    by (rule cache_inv_routers[OF assms]) (simp_all add: * router_add_fold_frame)
qed

lemma run_inv:
  assumes "run cfg c s = Inr s'" "cache_inv cfg s"
  shows "cache_inv cfg s'"
proof (cases c)
  case (Get_port t c sw ea)
  with assms obtain r where "get_port cfg t c sw ea s = Inr (r, s')"
    by (cases "get_port cfg t c sw ea s") auto
  from get_port_frame[OF this] assms(2) show ?thesis by (simp add: cache_inv_def)
next
  case (Add_member t cg cm maddr addr port timeout)
  with assms obtain r where "add_member cfg t cg cm maddr addr port timeout s = Inr (r, s')"
    by (cases "add_member cfg t cg cm maddr addr port timeout s") auto
  from add_member_inv[OF this assms(2)] show ?thesis .
next
  case (Del_member maddr addr port)
  with assms obtain r where "del_member cfg maddr addr port s = Inr (r, s')"
    by (cases "del_member cfg maddr addr port s") auto
  from del_member_inv[OF this assms(2)] show ?thesis .
next
  case (Add_router t cm addr port timeout)
  with assms add_router_inv[OF assms(2)] show ?thesis by auto
next
  case (Expire_members t maddr timeout)
  with assms obtain r where "expire_members cfg t maddr timeout s = Inr (r, s')"
    by (cases "expire_members cfg t maddr timeout s") auto
  from expire_members_inv[OF this assms(2)] show ?thesis .
next
  case (Group_timer t)
  with assms group_timer_inv[OF assms(2)] show ?thesis by auto
next
  case (Router_timer t)
  with assms router_timer_inv[OF assms(2)] show ?thesis by auto
qed

lemma run_all_inv:
  "run_all cfg cs s = Inr s' \<Longrightarrow> cache_inv cfg s \<Longrightarrow> cache_inv cfg s'"
proof (induction cs arbitrary: s)
  case Nil
  then show ?case by simp
next
  case (Cons c cs)
  then show ?case by (auto split: sum.splits dest: run_inv)
qed

lemma group_ok_iff_exact:
  "PORT_MAX cfg < 32 \<Longrightarrow> group_ok cfg g = bitmask_exact cfg g"
proof (rule iffI)
  assume pm: "PORT_MAX cfg < 32" and "group_ok cfg g"
  then have "bit (portmap g) p \<longleftrightarrow> p \<le> PORT_MAX cfg \<and> group_members g p \<noteq> []" for p
    by (auto simp: group_ok_def get_portmap_bit)
  then show "bitmask_exact cfg g" by (simp add: bitmask_exact_def)
next
  assume pm: "PORT_MAX cfg < 32" and ex: "bitmask_exact cfg g"
  have "portmap g = get_portmap cfg g"
  proof (rule bit_eqI)
    fix p
    from pm ex show "bit (portmap g) p \<longleftrightarrow> bit (get_portmap cfg g) p"
      by (auto simp: bitmask_exact_def get_portmap_bit)
  qed
  then show "group_ok cfg g" by (simp add: group_ok_def)
qed

lemma cache_inv_iff_exact:
  "PORT_MAX cfg < 32 \<Longrightarrow> cache_inv cfg s \<longleftrightarrow> bitmasks_exact cfg s"
  by (simp add: cache_inv_def bitmasks_exact_def group_ok_iff_exact)


subsection \<open>What \<^verbatim>\<open>add_member\<close> and \<^verbatim>\<open>del_member\<close> return and leave\<close>

lemma get_group_lookup:
  "get_group cfg c ea False s = Inr (lookup_group cfg ea s, s)"
  by (simp add: get_group_no_alloc lookup_group_def)

lemma get_group_cases:
  assumes "get_group cfg c ea True s = Inr (r, s1)"
  obtains (found) g where "lookup_group cfg ea s = Some g" "r = Some g" "s1 = s"
  | (fresh) "lookup_group cfg ea s = None" "groups_count s < GROUP_POOL_SIZE" "c" "r = Some (brk s)"
      "s1 = s\<lparr>group_mem := (group_mem s)(brk s := (init_group cfg zero_group)\<lparr>group_ea := ea\<rparr>),
        brk := Suc (brk s), groups_count := Suc (groups_count s),
        groups_hash := (groups_hash s)(HASH_INDEX cfg ea := brk s # groups_hash s (HASH_INDEX cfg ea)),
        groups_pool := groups_pool s @ [brk s]\<rparr>"
  | (full) "lookup_group cfg ea s = None" "r = None" "s1 = s"
proof (cases "lookup_group cfg ea s")
  case (Some g)
  with assms have "r = Some g" "s1 = s" by (auto simp: get_group_def lookup_group_def)
  with Some show ?thesis by (rule found)
next
  case None
  show ?thesis
  proof (cases "groups_count s < GROUP_POOL_SIZE \<and> c")
    case True
    with None assms have "r = Some (brk s)"
      "s1 = s\<lparr>group_mem := (group_mem s)(brk s := (init_group cfg zero_group)\<lparr>group_ea := ea\<rparr>),
        brk := Suc (brk s), groups_count := Suc (groups_count s),
        groups_hash := (groups_hash s)(HASH_INDEX cfg ea := brk s # groups_hash s (HASH_INDEX cfg ea)),
        groups_pool := groups_pool s @ [brk s]\<rparr>"
      by (auto simp: get_group_def lookup_group_def Let_def)
    with None True show ?thesis by (intro fresh) auto
  next
    case False
    with None assms have "r = None" "s1 = s"
      by (auto simp: get_group_def lookup_group_def Let_def split: if_splits option.splits)
    with None show ?thesis by (rule full)
  qed
qed

lemma find_Some_hd: "find P xs = Some x \<Longrightarrow> P x \<and> x \<in> set xs"
  by (induction xs) (auto split: if_splits)

lemma get_group_Some:
  assumes "get_group cfg c ea True s = Inr (Some g, s1)"
  shows "lookup_group cfg ea s1 = Some g \<and>
    group_ea (group_mem s1 g) = ea \<and>
    portmap (group_mem s1 g) = group_bitmask cfg ea s \<and>
    routers_group s1 = routers_group s \<and>
    switch_log s1 = switch_log s \<and>
    groups_timer s1 = groups_timer s \<and>
    members_free s1 = members_free s \<and>
    members_count s1 = members_count s \<and>
    (lookup_group cfg ea s = None \<longrightarrow>
     g \<in> set (groups_pool s1) \<and> (\<forall>p\<le>PORT_MAX cfg. group_members (group_mem s1 g) p = [])) \<and>
    (\<forall>g'. lookup_group cfg ea s = Some g' \<longrightarrow> g' = g \<and> s1 = s)"
  using assms
proof (cases rule: get_group_cases)
  case (found g0)
  then show ?thesis
    using find_Some_hd[of "\<lambda>a. group_ea (group_mem s a) = ea" "groups_hash s (HASH_INDEX cfg ea)" g0]
    by (simp add: group_bitmask_def) (simp add: lookup_group_def)
next
  case fresh
  then show ?thesis
    by (simp add: group_bitmask_def init_group_eq) (simp add: lookup_group_def)
next
  case full
  then show ?thesis by simp
qed

lemma lookup_group_cong:
  "groups_hash s' = groups_hash s \<Longrightarrow> (\<And>a. group_ea (group_mem s' a) = group_ea (group_mem s a)) \<Longrightarrow>
   lookup_group cfg ea s' = lookup_group cfg ea s"
  by (simp add: lookup_group_def)

lemma lookup_group_update:
  assumes "groups_hash s' = groups_hash s" "group_mem s' = (group_mem s)(g := x)"
    "group_ea x = group_ea (group_mem s g)"
  shows "lookup_group cfg ea s' = lookup_group cfg ea s"
  by (rule lookup_group_cong) (use assms in auto)

lemma add_member_result:
  assumes valid: "0 \<le> port" "port \<le> int (PORT_MAX cfg)"
    and gg: "get_group cfg cg maddr True s = Inr (Some g, s1)"
    and gm: "get_member ((group_mem s1 g)\<lparr>group_time := t + timeout\<rparr>) addr (nat port) True cm s1
              = (m, grp2, s2)"
  defines "grp3 \<equiv> (case m of
                      Some i \<Rightarrow>
                        grp2\<lparr>group_members := (group_members grp2)
                          (nat port := update_nth i (\<lambda>m. m\<lparr>member_time := group_time grp2\<rparr>)
                                         (group_members grp2 (nat port)))\<rparr>
                    | None \<Rightarrow> grp2)"
  defines "pm1 \<equiv> (portmap (group_mem s1 g) XOR get_portmap cfg grp3) AND get_portmap cfg grp3"
  shows "\<exists>s'. add_member cfg t cg cm maddr addr port timeout s = Inr (pm1, s') \<and>
      group_mem s' = (group_mem s1)(g := grp3\<lparr>portmap := get_portmap cfg grp3\<rparr>) \<and>
      groups_hash s' = groups_hash s1 \<and> groups_pool s' = groups_pool s1 \<and>
      routers_group s' = routers_group s1 \<and>
      switch_log s' = switch_log s1 @
        (if pm1 \<noteq> 0 then [Switch_add_portmap maddr (pm1 OR portmap (routers_group s1))] else []) \<and>
      groups_timer s' =
        (if \<not> pending (groups_timer s1) \<or> time_before (t + timeout) (expires (groups_timer s1))
         then mod_timer (groups_timer s1) (t + timeout) else groups_timer s1) \<and>
      members_free s' = members_free s2 \<and> members_count s' = members_count s2"
    and "group_time grp3 = t + timeout" and "group_ea grp3 = group_ea (group_mem s1 g)"
proof -
  note fr = get_member_frame[OF gm]
  show g3: "group_time grp3 = t + timeout" "group_ea grp3 = group_ea (group_mem s1 g)"
    using fr by (auto simp: grp3_def split: option.splits)
  show "\<exists>s'. add_member cfg t cg cm maddr addr port timeout s = Inr (pm1, s') \<and>
      group_mem s' = (group_mem s1)(g := grp3\<lparr>portmap := get_portmap cfg grp3\<rparr>) \<and>
      groups_hash s' = groups_hash s1 \<and> groups_pool s' = groups_pool s1 \<and>
      routers_group s' = routers_group s1 \<and>
      switch_log s' = switch_log s1 @
        (if pm1 \<noteq> 0 then [Switch_add_portmap maddr (pm1 OR portmap (routers_group s1))] else []) \<and>
      groups_timer s' =
        (if \<not> pending (groups_timer s1) \<or> time_before (t + timeout) (expires (groups_timer s1))
         then mod_timer (groups_timer s1) (t + timeout) else groups_timer s1) \<and>
      members_free s' = members_free s2 \<and> members_count s' = members_count s2"
    using valid gg gm g3 fr
    by (simp add: add_member_def Let_def flip: grp3_def pm1_def)
       (simp add: switch_call_def timer_pending_def)
qed

lemma newly_set_bits: "(a XOR b) AND b = NOT a AND (b::cint)"
  by (rule bit_eqI) (auto simp: bit_simps)

lemma newly_cleared_bits: "(a XOR b) AND a = a AND NOT (b::cint)"
  by (rule bit_eqI) (auto simp: bit_simps)


lemma lookup_group_ok:
  assumes "cache_inv cfg s" "lookup_group cfg ea s = Some g"
  shows "group_ok cfg (group_mem s g)"
proof -
  from assms(2) have "g \<in> set (groups_hash s (HASH_INDEX cfg ea))"
    by (auto simp: lookup_group_def dest: find_Some_hd)
  moreover have "HASH_INDEX cfg ea < HASH_SIZE"
    by (simp add: HASH_INDEX_def HASH_SIZE_def)
  ultimately show ?thesis using assms(1) by (auto simp: cache_inv_def)
qed

lemma get_member_no_alloc:
  "get_member g addr p False c s = (find_member addr (group_members g p), g, s)"
  by (simp add: get_member_def split: option.splits)

lemma del_member_result:
  fixes addr :: in_addr
  assumes valid: "0 \<le> port" "port \<le> int (PORT_MAX cfg)"
    and lg: "lookup_group cfg maddr s = Some g"
  defines "ms \<equiv> group_members (group_mem s g) (nat port)"
  defines "grp2 \<equiv> (case find_member addr ms of
       Some i \<Rightarrow> (group_mem s g)\<lparr>group_members :=
                    (group_members (group_mem s g))(nat port := take i ms @ drop (Suc i) ms)\<rparr>
     | None \<Rightarrow> group_mem s g)"
  defines "pm1 \<equiv> (portmap (group_mem s g) XOR get_portmap cfg grp2) AND portmap (group_mem s g)"
  defines "r \<equiv> pm1 AND NOT (portmap (routers_group s))"
  shows "\<exists>s'. del_member cfg maddr addr port s = Inr (r, s') \<and>
      groups_hash s' = groups_hash s \<and> groups_pool s' = groups_pool s \<and>
      routers_group s' = routers_group s \<and>
      (\<forall>a. a \<noteq> g \<longrightarrow> group_mem s' a = group_mem s a) \<and>
      group_ea (group_mem s' g) = group_ea (group_mem s g) \<and>
      portmap (group_mem s' g) = get_portmap cfg grp2 \<and>
      switch_log s' = switch_log s @ (if r \<noteq> 0 then [Switch_del_portmap maddr r] else []) \<and>
      (find_member addr ms = None \<longrightarrow> pm1 = 0 \<longrightarrow>
         s' = s\<lparr>group_mem := (group_mem s)
                 (g := (group_mem s g)\<lparr>portmap := get_portmap cfg (group_mem s g)\<rparr>)\<rparr>)"
proof -
  define s3 where "s3 = (case find_member addr ms of
      Some i \<Rightarrow> s\<lparr>members_free := take 1 (drop i ms) @ members_free s\<rparr> | None \<Rightarrow> s)"
  define grp3 where "grp3 = grp2\<lparr>portmap := get_portmap cfg grp2\<rparr>"
  define grp5 where "grp5 = (if pm1 \<noteq> 0 \<and> get_portmap cfg grp2 = 0
      then fst (consume_group cfg grp3 s3) else grp3)"
  define s5 where "s5 = (if pm1 \<noteq> 0 \<and> get_portmap cfg grp2 = 0
      then snd (consume_group cfg grp3 s3) else s3)"
  have cm: "(case find_member addr ms of
               Some i \<Rightarrow> consume_member (group_mem s g) (nat port) i s
             | None \<Rightarrow> (group_mem s g, s)) = (grp2, s3)"
    by (simp add: consume_member_def Let_def grp2_def s3_def ms_def split: option.splits)
  have eq: "del_member cfg maddr addr port s =
      Inr (del_member_report maddr pm1 (s5\<lparr>group_mem := (group_mem s5)(g := grp5)\<rparr>))"
    using valid lg cm
    by (simp add: del_member_def get_group_lookup get_member_no_alloc Let_def ms_def[symmetric]
          pm1_def grp5_def s5_def grp3_def split: prod.splits)
  have s3: "groups_hash s3 = groups_hash s" "groups_pool s3 = groups_pool s"
    "routers_group s3 = routers_group s" "group_mem s3 = group_mem s" "switch_log s3 = switch_log s"
    by (simp_all add: s3_def split: option.splits)
  have s5: "groups_hash s5 = groups_hash s" "groups_pool s5 = groups_pool s"
    "routers_group s5 = routers_group s" "group_mem s5 = group_mem s" "switch_log s5 = switch_log s"
    by (simp_all add: s5_def s3 consume_group_eq)
  have g2: "group_ea grp2 = group_ea (group_mem s g)"
    by (simp add: grp2_def split: option.splits)
  have g5: "group_ea grp5 = group_ea (group_mem s g)" "portmap grp5 = get_portmap cfg grp2"
    by (auto simp: grp5_def grp3_def consume_group_eq g2)
  have none: "find_member addr ms = None \<Longrightarrow> pm1 = 0 \<Longrightarrow>
      s5 = s \<and> grp5 = (group_mem s g)\<lparr>portmap := get_portmap cfg (group_mem s g)\<rparr>"
    by (simp add: s5_def s3_def grp5_def grp3_def grp2_def)
  let ?s' = "snd (del_member_report maddr pm1 (s5\<lparr>group_mem := (group_mem s5)(g := grp5)\<rparr>))"
  have "del_member cfg maddr addr port s = Inr (r, ?s')"
    by (simp add: eq del_member_report_def Let_def r_def s5)
  moreover have "switch_log ?s' = switch_log s @ (if r \<noteq> 0 then [Switch_del_portmap maddr r] else [])"
    by (simp add: del_member_report_def Let_def r_def s5 switch_call_def)
  moreover have "find_member addr ms = None \<longrightarrow> pm1 = 0 \<longrightarrow>
         ?s' = s\<lparr>group_mem := (group_mem s)
                 (g := (group_mem s g)\<lparr>portmap := get_portmap cfg (group_mem s g)\<rparr>)\<rparr>"
    using none by (auto simp add: del_member_report_def Let_def)
  ultimately show ?thesis
    by (intro exI[of _ ?s']) (simp add: s5 g5)
qed

lemma get_group_obtained:
  assumes "lookup_group cfg maddr s \<noteq> None \<or> (groups_count s < GROUP_POOL_SIZE \<and> cg)"
  shows "\<exists>g s1. get_group cfg cg maddr True s = Inr (Some g, s1)"
  using assms
  by (auto simp: get_group_def lookup_group_def Let_def split: option.splits)

lemma get_member_exhausted:
  assumes "find_member addr (group_members g p) = None" "members_free s = []"
    "MEMBER_POOL_SIZE \<le> members_count s \<or> \<not> cm"
  shows "get_member g addr p True cm s = (None, g, s)"
  using assms by (auto simp: get_member_def)


subsection \<open>The host table\<close>








lemma get_host_log:
  "switch_log (case get_host cfg c ea t s of Inl (f, s') \<Rightarrow> s' | Inr (r, s') \<Rightarrow> s') = switch_log s"
  by (auto simp: get_host_def Let_def split: option.splits if_splits)

lemma get_port_calls:
  "new_calls s (state_of (get_port cfg t c sw ea s)) = [] \<or>
   new_calls s (state_of (get_port cfg t c sw ea s)) = [Switch_get_port ea]"
proof (cases "get_host cfg c ea t s")
  case (Inl x)
  with get_host_log[of cfg c ea t s] show ?thesis
    by (auto simp: get_port_def state_of_def new_calls_def)
next
  case (Inr x)
  obtain r s1 where x: "x = (r, s1)" by (cases x)
  from get_host_log[of cfg c ea t s] Inr x have "switch_log s1 = switch_log s" by simp
  with Inr x show ?thesis
    by (auto simp: get_port_def state_of_def new_calls_def Let_def switch_call_def split: option.splits)
qed


subsection \<open>Filling and recycling the pools\<close>

lemma lookup_host_None:
  assumes "\<forall>i. \<forall>a\<in>set (hosts_hash s i). host_ea (host_mem s a) \<in> S" "ea \<notin> S"
  shows "lookup_host cfg ea s = None"
  using assms by (auto simp: lookup_host_def find_None_iff)

lemma get_port_new_host:
  assumes "hosts_count s < HOST_POOL_SIZE" "lookup_host cfg ea s = None"
  shows "\<exists>r s'. get_port cfg t True sw ea s = Inr (r, s') \<and> hosts_count s' = hosts_count s \<and>
     hosts_pool s' = hosts_pool s @ [brk s] \<and>
     (\<forall>i. set (hosts_hash s' i) \<subseteq> insert (brk s) (set (hosts_hash s i))) \<and>
     host_ea (host_mem s' (brk s)) = ea \<and>
     (\<forall>a. a \<noteq> brk s \<longrightarrow> host_ea (host_mem s' a) = host_ea (host_mem s a))"
proof -
  let ?s1 = "s\<lparr>host_mem := (host_mem s)(brk s := zero_host\<lparr>host_ea := ea\<rparr>), brk := Suc (brk s),
               hosts_hash := (hosts_hash s)(HASH_INDEX cfg ea := brk s # hosts_hash s (HASH_INDEX cfg ea)),
               hosts_pool := hosts_pool s @ [brk s]\<rparr>"
  have gh: "get_host cfg True ea t s = Inr (Some (brk s), ?s1)"
    using assms by (simp add: get_host_def lookup_host_def Let_def)
  show ?thesis
    unfolding get_port_def gh
    by (auto simp: Let_def switch_call_def)
qed

lemma resolve_many:
  assumes "distinct eas" "set eas \<inter> S = {}" "hosts_count s = 0"
    "\<forall>i. \<forall>a\<in>set (hosts_hash s i). host_ea (host_mem s a) \<in> S"
  shows "\<exists>s'. run_all cfg (map (Get_port t True sw) eas) s = Inr s' \<and>
    length (hosts_pool s') = length (hosts_pool s) + length eas \<and> hosts_count s' = 0"
  using assms
proof (induction eas arbitrary: s S)
  case Nil
  then show ?case by simp
next
  case (Cons ea eas)
  from Cons.prems have "ea \<notin> S" by auto
  from lookup_host_None[OF Cons.prems(4) this] have ln: "lookup_host cfg ea s = None" .
  have "hosts_count s < HOST_POOL_SIZE" using Cons.prems(3) by (simp add: HOST_POOL_SIZE_def)
  from get_port_new_host[OF this ln, of t sw] obtain r s1 where
    s1: "get_port cfg t True sw ea s = Inr (r, s1)" "hosts_count s1 = hosts_count s"
      "hosts_pool s1 = hosts_pool s @ [brk s]"
      "\<forall>i. set (hosts_hash s1 i) \<subseteq> insert (brk s) (set (hosts_hash s i))"
      "host_ea (host_mem s1 (brk s)) = ea"
      "\<forall>a. a \<noteq> brk s \<longrightarrow> host_ea (host_mem s1 a) = host_ea (host_mem s a)"
    by blast
  have inv: "\<forall>i. \<forall>a\<in>set (hosts_hash s1 i). host_ea (host_mem s1 a) \<in> insert ea S"
  proof (intro allI ballI)
    fix i a assume "a \<in> set (hosts_hash s1 i)"
    with s1(4) have "a = brk s \<or> a \<in> set (hosts_hash s i)" by auto
    then show "host_ea (host_mem s1 a) \<in> insert ea S"
      using s1(5,6) Cons.prems(4) by (cases "a = brk s") auto
  qed
  have "distinct eas" "set eas \<inter> insert ea S = {}" "hosts_count s1 = 0"
    using Cons.prems s1(2) by auto
  from Cons.IH[OF this inv] obtain s' where
    "run_all cfg (map (Get_port t True sw) eas) s1 = Inr s'"
    "length (hosts_pool s') = length (hosts_pool s1) + length eas" "hosts_count s' = 0"
    by blast
  with s1 show ?case by simp
qed


lemma get_group_recycle:
  assumes "lookup_group cfg ea s = None" "\<not> (groups_count s < GROUP_POOL_SIZE \<and> c)"
    "find (\<lambda>a. portmap (group_mem s a) = 0) (groups_pool s) = Some v"
  shows "\<exists>s'. get_group cfg c ea True s = Inl (Null_deref, s') \<and>
    switch_log s' = switch_log s @ [Switch_clr_portmap (group_ea (group_mem s v))] \<and>
    group_mem s' = group_mem s"
  using assms
  by (auto simp: get_group_def lookup_group_def Let_def switch_call_def)

lemma get_host_recycle:
  assumes "lookup_host cfg ea s = None" "\<not> (hosts_count s < HOST_POOL_SIZE \<and> c)"
    "find (\<lambda>a. time_before (host_time (host_mem s a)) t) (hosts_pool s) = Some v"
  shows "\<exists>s'. get_host cfg c ea t s = Inl (Stack_overwrite, s') \<and> host_mem s' = host_mem s"
  using assms
  by (auto simp: get_host_def lookup_host_def Let_def)


subsection \<open>The driver calls of each operation\<close>

lemma add_member_log:
  assumes "add_member cfg t cg cm maddr addr port timeout s = Inr (r, s')"
  shows "\<exists>xs. switch_log s' = switch_log s @ xs \<and> (\<forall>x\<in>set xs. \<exists>ea m. x = Switch_add_portmap ea m)"
proof (cases "0 \<le> port \<and> port \<le> int (PORT_MAX cfg)")
  case False
  with assms have "s' = s" by (auto simp: add_member_def)
  then show ?thesis by simp
next
  case True
  show ?thesis
  proof (cases "get_group cfg cg maddr True s")
    case (Inl f)
    with assms True show ?thesis by (simp add: add_member_def)
  next
    case (Inr x)
    obtain go s1 where x: "x = (go, s1)" by (cases x)
    show ?thesis
    proof (cases go)
      case None
      from Inr[unfolded x None] have "s1 = s"
        by (cases rule: get_group_cases; simp)
      with assms True Inr x None show ?thesis by (simp add: add_member_def)
    next
      case (Some g)
      note gg = Inr[unfolded x Some]
      obtain m grp2 s2 where gm:
        "get_member ((group_mem s1 g)\<lparr>group_time := t + timeout\<rparr>) addr (nat port) True cm s1 = (m, grp2, s2)"
        by (metis prod_cases3)
      from True have v: "0 \<le> port" "port \<le> int (PORT_MAX cfg)" by simp_all
      from add_member_result(1)[OF v gg gm] assms get_group_Some[OF gg]
      show ?thesis by auto
    qed
  qed
qed

lemma masked_disjoint: "(a AND NOT b) AND b = (0::cint)"
  by (rule bit_eqI) (auto simp: bit_simps)

lemma del_member_log:
  assumes "del_member cfg maddr addr port s = Inr (r, s')"
  shows "routers_group s' = routers_group s \<and>
    (\<exists>xs. switch_log s' = switch_log s @ xs \<and>
      (\<forall>x\<in>set xs. \<exists>m. x = Switch_del_portmap maddr m \<and> m AND portmap (routers_group s) = 0))"
proof (cases "0 \<le> port \<and> port \<le> int (PORT_MAX cfg)")
  case False
  with assms have "s' = s" by (auto simp: del_member_def)
  then show ?thesis by simp
next
  case True
  then have v: "0 \<le> port" "port \<le> int (PORT_MAX cfg)" by simp_all
  show ?thesis
  proof (cases "lookup_group cfg maddr s")
    case None
    with assms True have "s' = s"
      by (auto simp: del_member_def get_group_lookup del_member_report_def)
    then show ?thesis by simp
  next
    case (Some g)
    from del_member_result[OF v Some, of addr] assms
    obtain pm1 where "r = pm1 AND NOT (portmap (routers_group s))"
      "routers_group s' = routers_group s"
      "switch_log s' = switch_log s @ (if r \<noteq> 0 then [Switch_del_portmap maddr r] else [])"
      by auto
    then show ?thesis by (auto simp: masked_disjoint)
  qed
qed

lemma group_timer_step_log:
  assumes "group_timer_step cfg t a (e, s) = (e', s')"
  shows "routers_group s' = routers_group s \<and>
    (\<exists>xs. switch_log s' = switch_log s @ xs \<and>
      (\<forall>x\<in>set xs. \<exists>ea m. x = Switch_del_portmap ea m \<and> m AND portmap (routers_group s) = 0))"
  using assms
  by (auto simp: group_timer_step_def Let_def consume_group_eq switch_call_def masked_disjoint
      split: if_splits)

lemma group_timer_fold_log:
  "fold (group_timer_step cfg t) as (e, s) = (e', s') \<Longrightarrow>
   routers_group s' = routers_group s \<and>
    (\<exists>xs. switch_log s' = switch_log s @ xs \<and>
      (\<forall>x\<in>set xs. \<exists>ea m. x = Switch_del_portmap ea m \<and> m AND portmap (routers_group s) = 0))"
proof (induction as arbitrary: e s)
  case Nil
  then show ?case by simp
next
  case (Cons a as)
  obtain e1 s1 where st: "group_timer_step cfg t a (e, s) = (e1, s1)" by (metis surj_pair)
  from group_timer_step_log[OF st] obtain xs where
    1: "routers_group s1 = routers_group s" "switch_log s1 = switch_log s @ xs"
      "\<forall>x\<in>set xs. \<exists>ea m. x = Switch_del_portmap ea m \<and> m AND portmap (routers_group s) = 0"
    by blast
  from Cons.prems st have "fold (group_timer_step cfg t) as (e1, s1) = (e', s')" by simp
  from Cons.IH[OF this] obtain ys where
    2: "routers_group s' = routers_group s1" "switch_log s' = switch_log s1 @ ys"
      "\<forall>x\<in>set ys. \<exists>ea m. x = Switch_del_portmap ea m \<and> m AND portmap (routers_group s1) = 0"
    by blast
  from 1 2 show ?case
    by (intro conjI exI[of _ "xs @ ys"]) auto
qed

lemma group_timer_log:
  "routers_group (group_timer cfg t s) = routers_group s \<and>
    (\<exists>xs. switch_log (group_timer cfg t s) = switch_log s @ xs \<and>
      (\<forall>x\<in>set xs. \<exists>ea m. x = Switch_del_portmap ea m \<and> m AND portmap (routers_group s) = 0))"
proof -
  obtain e' s' where f: "fold (group_timer_step cfg t) (groups_pool s) (t + ULONG_HALF, s) = (e', s')"
    by (metis surj_pair)
  from group_timer_fold_log[OF f] f show ?thesis
    by (auto simp: group_timer_def Let_def)
qed

lemma router_add_fold_log:
  "\<exists>xs. switch_log (fold (router_add_step pm) as s) = switch_log s @ xs \<and>
      (\<forall>x\<in>set xs. \<exists>ea m. x = Switch_add_portmap ea m)"
proof (induction as arbitrary: s)
  case Nil
  then show ?case by simp
next
  case (Cons a as)
  from Cons.IH[of "router_add_step pm a s"] obtain ys where
    ys: "switch_log (fold (router_add_step pm) as (router_add_step pm a s))
       = switch_log (router_add_step pm a s) @ ys"
    "\<forall>x\<in>set ys. \<exists>ea m. x = Switch_add_portmap ea m" by blast
  obtain zs where zs: "switch_log (router_add_step pm a s) = switch_log s @ zs"
    "\<forall>x\<in>set zs. \<exists>ea m. x = Switch_add_portmap ea m"
    by (cases "pm AND NOT (portmap (group_mem s a)) = 0")
       (auto simp: router_add_step_def Let_def switch_call_def)
  have "fold (router_add_step pm) (a # as) s = fold (router_add_step pm) as (router_add_step pm a s)"
    by simp
  with ys zs show ?case
    by (intro exI[of _ "zs @ ys"]) auto
qed

lemma router_del_fold_log:
  "\<exists>xs. switch_log (fold (router_del_step pm) as s) = switch_log s @ xs \<and>
      (\<forall>x\<in>set xs. \<exists>a\<in>set as.
          x = Switch_del_portmap (group_ea (group_mem s a)) (pm AND NOT (portmap (group_mem s a))))"
proof (induction as arbitrary: s)
  case Nil
  then show ?case by simp
next
  case (Cons a as)
  have gm: "group_mem (router_del_step pm a s) = group_mem s"
    by (simp add: router_del_step_frame)
  from Cons.IH[of "router_del_step pm a s"] obtain ys where
    ys: "switch_log (fold (router_del_step pm) as (router_del_step pm a s))
       = switch_log (router_del_step pm a s) @ ys"
    "\<forall>x\<in>set ys. \<exists>b\<in>set as.
          x = Switch_del_portmap (group_ea (group_mem s b)) (pm AND NOT (portmap (group_mem s b)))"
    unfolding gm by blast
  obtain zs where zs: "switch_log (router_del_step pm a s) = switch_log s @ zs"
    "\<forall>x\<in>set zs.
          x = Switch_del_portmap (group_ea (group_mem s a)) (pm AND NOT (portmap (group_mem s a)))"
    by (cases "pm AND NOT (portmap (group_mem s a)) = 0")
       (auto simp: router_del_step_def Let_def switch_call_def)
  have "fold (router_del_step pm) (a # as) s = fold (router_del_step pm) as (router_del_step pm a s)"
    by simp
  with ys zs show ?case
    by (intro exI[of _ "zs @ ys"]) auto
qed

lemma new_calls_append: "switch_log s' = switch_log s @ xs \<Longrightarrow> new_calls s s' = xs"
  by (simp add: new_calls_def)

lemma set_time_fold_log:
  "switch_log (fold (\<lambda>a s'. s'\<lparr>group_mem := (group_mem s')(a := (group_mem s' a)\<lparr>group_time := t\<rparr>)\<rparr>) as s)
    = switch_log s"
  by (induction as arbitrary: s) simp_all

lemma expire_members_log:
  assumes "expire_members cfg t maddr timeout s = Inr (r, s')"
  shows "switch_log s' = switch_log s"
  using assms set_time_fold_log[of "t + timeout" "groups_pool s" s]
  by (auto simp: expire_members_def get_group_lookup Let_def expire_reschedule_def
      split: option.splits if_splits)

lemma add_router_log:
  "\<exists>xs. switch_log (snd (add_router cfg t cm addr port timeout s)) = switch_log s @ xs \<and>
      (\<forall>x\<in>set xs. \<exists>ea m. x = Switch_add_portmap ea m)"
proof -
  from add_router_shape[of cfg t cm addr port timeout s] obtain pm1 s1 where
    *: "snd (add_router cfg t cm addr port timeout s)
       = (if pm1 \<noteq> 0 then fold (router_add_step pm1) (groups_pool s1) s1 else s1)"
      "switch_log s1 = switch_log s" by blast
  show ?thesis
  proof (cases "pm1 = 0")
    case True
    with * show ?thesis by simp
  next
    case False
    with * router_add_fold_log[of pm1 "groups_pool s1" s1] show ?thesis by simp
  qed
qed

lemma masked_bit:
  assumes "m AND r = (0::cint)" "bit r p"
  shows "\<not> bit m p"
proof
  assume "bit m p"
  with assms(2) have "bit (m AND r) p" by (simp add: bit_and_iff)
  with assms(1) show False by simp
qed

lemma router_timer_calls:
  assumes "x \<in> set (new_calls s (router_timer cfg t s))" "removes_port p x"
  shows "\<not> bit (portmap (routers_group (router_timer cfg t s))) p \<and>
    (\<exists>a\<in>set (groups_pool s). \<exists>m. x = Switch_del_portmap (group_ea (group_mem s a)) m \<and>
        bit m p \<and> \<not> bit (portmap (group_mem s a)) p)"
proof -
  from router_timer_shape[of cfg t s]
  consider "router_timer cfg t s = s"
    | pm1 s1 where "router_timer cfg t s =
          (if pm1 \<noteq> 0 then fold (router_del_step pm1) (groups_pool s1) s1 else s1)"
      "group_mem s1 = group_mem s" "groups_pool s1 = groups_pool s"
      "switch_log s1 = switch_log s" "pm1 AND portmap (routers_group s1) = 0"
    by blast
  then show ?thesis
  proof cases
    case 1
    with assms(1) show ?thesis by (simp add: new_calls_def)
  next
    case 2
    show ?thesis
    proof (cases "pm1 = 0")
      case True
      with 2 assms(1) show ?thesis by (simp add: new_calls_def)
    next
      case False
      with 2 have rt: "router_timer cfg t s = fold (router_del_step pm1) (groups_pool s) s1" by simp
      from router_del_fold_log[of pm1 "groups_pool s" s1] obtain xs where
        xs: "switch_log (router_timer cfg t s) = switch_log s @ xs"
          "\<forall>x\<in>set xs. \<exists>a\<in>set (groups_pool s).
            x = Switch_del_portmap (group_ea (group_mem s a)) (pm1 AND NOT (portmap (group_mem s a)))"
        unfolding rt 2 by blast
      from assms(1) new_calls_append[OF xs(1)] xs(2) obtain a where
        a: "a \<in> set (groups_pool s)"
          "x = Switch_del_portmap (group_ea (group_mem s a)) (pm1 AND NOT (portmap (group_mem s a)))"
        by auto
      with assms(2) have b: "bit pm1 p" "\<not> bit (portmap (group_mem s a)) p"
        by (simp_all add: bit_simps)
      have "routers_group (router_timer cfg t s) = routers_group s1"
        unfolding rt by (simp add: router_del_fold_frame)
      moreover from 2(5) b(1) have "\<not> bit (portmap (routers_group s1)) p"
        using masked_bit[of "portmap (routers_group s1)" pm1 p] by (simp add: and.commute)
      ultimately show ?thesis using a b assms(2) by auto
    qed
  qed
qed

lemma adds_keep:
  assumes "\<forall>x\<in>set xs. \<exists>ea m. x = Switch_add_portmap ea m" "x \<in> set xs"
  shows "\<not> removes_port p x"
proof -
  from assms obtain ea m where "x = Switch_add_portmap ea m" by blast
  then show ?thesis by simp
qed

lemma masked_dels_keep:
  assumes "\<forall>x\<in>set xs. \<exists>ea m. x = Switch_del_portmap ea m \<and> m AND r = 0" "x \<in> set xs" "bit r p"
  shows "\<not> removes_port p x"
proof -
  from assms obtain ea m where "x = Switch_del_portmap ea m" "m AND r = 0" by blast
  with masked_bit[OF this(2) assms(3)] show ?thesis by simp
qed

lemma run_no_removal:
  assumes "run cfg c s = Inr s'" "\<forall>t. c \<noteq> Router_timer t"
    "bit (portmap (routers_group s)) p" "x \<in> set (new_calls s s')"
  shows "\<not> removes_port p x"
proof (cases c)
  case (Get_port t c sw ea)
  with assms(1) obtain r where "get_port cfg t c sw ea s = Inr (r, s')"
    by (cases "get_port cfg t c sw ea s") auto
  then have "state_of (get_port cfg t c sw ea s) = s'" by (simp add: state_of_def)
  with get_port_calls[of s cfg t c sw ea] assms(4) show ?thesis
    by auto
next
  case (Add_member t cg cm maddr addr port timeout)
  with assms(1) obtain r where "add_member cfg t cg cm maddr addr port timeout s = Inr (r, s')"
    by (cases "add_member cfg t cg cm maddr addr port timeout s") auto
  from add_member_log[OF this] obtain xs where
    "switch_log s' = switch_log s @ xs" "\<forall>x\<in>set xs. \<exists>ea m. x = Switch_add_portmap ea m" by blast
  with assms(4) adds_keep[of xs x p] show ?thesis
    by (simp add: new_calls_def)
next
  case (Del_member maddr addr port)
  with assms(1) obtain r where "del_member cfg maddr addr port s = Inr (r, s')"
    by (cases "del_member cfg maddr addr port s") auto
  from del_member_log[OF this] obtain xs where
    "switch_log s' = switch_log s @ xs"
    "\<forall>x\<in>set xs. \<exists>m. x = Switch_del_portmap maddr m \<and> m AND portmap (routers_group s) = 0"
    by blast
  then have "switch_log s' = switch_log s @ xs"
    "\<forall>x\<in>set xs. \<exists>ea m. x = Switch_del_portmap ea m \<and> m AND portmap (routers_group s) = 0"
    by blast+
  with assms(3,4) masked_dels_keep[of xs "portmap (routers_group s)" x p] show ?thesis
    by (simp add: new_calls_def)
next
  case (Add_router t cm addr port timeout)
  with assms(1) have s': "s' = snd (add_router cfg t cm addr port timeout s)" by simp
  from add_router_log[of cfg t cm addr port timeout s] obtain xs where
    "switch_log s' = switch_log s @ xs" "\<forall>x\<in>set xs. \<exists>ea m. x = Switch_add_portmap ea m"
    unfolding s' by blast
  with assms(4) adds_keep[of xs x p] show ?thesis
    by (simp add: new_calls_def)
next
  case (Expire_members t maddr timeout)
  with assms(1) obtain r where "expire_members cfg t maddr timeout s = Inr (r, s')"
    by (cases "expire_members cfg t maddr timeout s") auto
  from expire_members_log[OF this] assms(4) show ?thesis
    by (simp add: new_calls_def)
next
  case (Group_timer t)
  with assms(1) have s': "s' = group_timer cfg t s" by simp
  from group_timer_log[of cfg t s] obtain xs where
    "switch_log s' = switch_log s @ xs"
    "\<forall>x\<in>set xs. \<exists>ea m. x = Switch_del_portmap ea m \<and> m AND portmap (routers_group s) = 0"
    unfolding s' by blast
  with assms(3,4) masked_dels_keep[of xs "portmap (routers_group s)" x p] show ?thesis
    by (simp add: new_calls_def)
next
  case (Router_timer t)
  with assms(2) show ?thesis by simp
qed


subsection \<open>The host table under the other operations\<close>

lemma host_frame_refl [simp]: "host_frame s s"
  by (simp add: host_frame_def)


lemma host_frame_fields [simp]:
  "host_frame s (s'\<lparr>group_mem := gm\<rparr>) = host_frame s s'"
  "host_frame s (s'\<lparr>groups_pool := gp\<rparr>) = host_frame s s'"
  "host_frame s (s'\<lparr>groups_hash := gh\<rparr>) = host_frame s s'"
  "host_frame s (s'\<lparr>groups_timer := gt\<rparr>) = host_frame s s'"
  "host_frame s (s'\<lparr>groups_count := gc\<rparr>) = host_frame s s'"
  "host_frame s (s'\<lparr>routers_group := rg\<rparr>) = host_frame s s'"
  "host_frame s (s'\<lparr>routers_timer := rt\<rparr>) = host_frame s s'"
  "host_frame s (s'\<lparr>members_free := mf\<rparr>) = host_frame s s'"
  "host_frame s (s'\<lparr>members_count := mc\<rparr>) = host_frame s s'"
  "host_frame s (s'\<lparr>switch_log := sl\<rparr>) = host_frame s s'"
  by (simp_all add: host_frame_def)

lemma host_frame_switch_call [simp]: "host_frame s (switch_call c s') = host_frame s s'"
  by (simp add: switch_call_def)





lemma host_frame_del_member_report [simp]:
  "host_frame s (snd (del_member_report maddr pm s')) = host_frame s s'"
  by (simp add: del_member_report_def Let_def)

lemma host_frame_consume_member [simp]:
  "host_frame s (snd (consume_member g p i s')) = host_frame s s'"
  by (simp add: consume_member_def Let_def)







lemma host_frame_router_del_fold [simp]:
  "host_frame s (fold (router_del_step pm) as s') = host_frame s s'"
  by (induction as arbitrary: s') (simp_all add: router_del_step_def Let_def)

lemma host_frame_router_add_fold [simp]:
  "host_frame s (fold (router_add_step pm) as s') = host_frame s s'"
  by (induction as arbitrary: s') (simp_all add: router_add_step_def Let_def)



lemma host_frame_set_time_fold [simp]:
  "host_frame s (fold (\<lambda>a s'. s'\<lparr>group_mem := (group_mem s')(a := (group_mem s' a)\<lparr>group_time := t\<rparr>)\<rparr>) as s')
    = host_frame s s'"
  by (induction as arbitrary: s') simp_all



subsection \<open>A cached host entry across other calls\<close>















subsection \<open>Unfolding the model on concrete inputs\<close>

lemmas eval_defs = example_config_def init_cache_def add_member_def get_group_def get_member_def
  init_group_def get_portmap_def consume_group_def consume_member_def del_member_def del_member_report_def
  switch_call_def mod_timer_def timer_pending_def set_timer_def zero_group_def zero_member_def
  HASH_INDEX_def HASH_SIZE_def GROUP_POOL_SIZE_def MEMBER_POOL_SIZE_def time_before_def time_after_def
  Let_def

lemmas eval_defs2 = eval_defs add_router_def router_add_step_def router_del_step_def final_state_def
  returned_def state_of_def faulted_def lookup_group_def group_bitmask_def one_member_state_def
  router_member_state_def expire_members_def expire_reschedule_def member_present_def
  no_members_def no_other_members_def new_calls_def lookup_host_def


lemmas eval_defs3 = eval_defs2 get_port_def get_host_def zero_host_def HOST_POOL_SIZE_def HOST_TTL_def
  time_after_eq_def


lemmas eval_defs4 = eval_defs3 router_other_port_state_def router_timer_def purge_cache_def
  purge_group_def purge_host_def del_timer_def sweep_port_def ULONG_HALF_def


subsection \<open>The example states\<close>

lemma cache_inv_of_exact:
  "PORT_MAX cfg < 31 \<Longrightarrow> bitmasks_exact cfg s \<Longrightarrow> cache_inv cfg s"
  by (simp add: cache_inv_iff_exact)

lemma one_member_state_run:
  "run_all example_config [Add_member 100 True True 1 7 2 50] (init_cache example_config)
      = Inr one_member_state"
  by (simp add: eval_defs2 upt_rec)

lemma example_ports: "PORT_MAX example_config < 31"
  by (simp add: example_config_def)

lemma one_member_state_exact: "bitmasks_exact example_config one_member_state"
  using run_all_inv[OF one_member_state_run cache_inv_init] example_ports
  by (simp add: cache_inv_iff_exact)


lemma get_portmap_zero:
  "(\<And>p. p \<le> PORT_MAX cfg \<Longrightarrow> group_members g p = []) \<Longrightarrow> get_portmap cfg g = 0"
  by (rule bit_eqI) (simp add: get_portmap_bit)

lemma no_members_bitmask:
  assumes "PORT_MAX cfg < 31" "bitmasks_exact cfg s" "no_members cfg maddr s"
  shows "group_bitmask cfg maddr s = 0"
proof (cases "lookup_group cfg maddr s")
  case None
  then show ?thesis by (simp add: group_bitmask_def)
next
  case (Some g)
  with assms(3) have e: "\<And>p. p \<le> PORT_MAX cfg \<Longrightarrow> group_members (group_mem s g) p = []"
    by (simp add: no_members_def)
  from lookup_group_ok[OF cache_inv_of_exact[OF assms(1,2)] Some]
  have "portmap (group_mem s g) = get_portmap cfg (group_mem s g)" by (simp add: group_ok_def)
  with get_portmap_zero[of cfg "group_mem s g", OF e] Some show ?thesis
    by (simp add: group_bitmask_def)
qed

lemma get_member_lists:
  assumes "get_member g addr p True cm s = (m, g', s')"
    and "group_members g p = []"
  shows "(m = None \<and> group_members g' = group_members g) \<or>
         (m = Some 0 \<and>
          group_members g' = (group_members g)(p := [\<lparr>member_time = 0, member_addr = addr\<rparr>]))"
  using assms
  by (auto simp: get_member_def Let_def zero_member_def split: list.splits if_splits)

lemma del_member_missing_group:
  assumes "lookup_group cfg maddr s = None" "del_member cfg maddr addr port s = Inr (r, s')"
  shows "s' = s"
  using assms
  by (auto simp: del_member_def get_group_lookup del_member_report_def split: if_splits)


subsection \<open>C1: the port map is always the recomputed one\<close>

text \<open>
  Claim C1. With port numbers that fit the \<^verbatim>\<open>int\<close> port map (\<^verbatim>\<open>1 << port\<close> is defined for
  ports below 31), the property "bit \<open>p\<close> of the port map is set exactly when \<open>p\<close> is a port
  in \<open>0..PORT_MAX\<close> whose member list is not empty" holds of every group entry and of the
  router state after \<^verbatim>\<open>init_cache\<close>, and every public operation that returns
  (\<^verbatim>\<open>get_port\<close>, \<^verbatim>\<open>add_member\<close>, \<^verbatim>\<open>del_member\<close>, \<^verbatim>\<open>add_router\<close>, \<^verbatim>\<open>expire_members\<close>, the group
  sweep, the router sweep) keeps it.
\<close>

theorem bitmask_invariant:
  assumes "PORT_MAX cfg < 31"
  shows "bitmasks_exact cfg (init_cache cfg) \<and>
    (\<forall>c s s'. bitmasks_exact cfg s \<longrightarrow> run cfg c s = Inr s' \<longrightarrow> bitmasks_exact cfg s')"
  using assms cache_inv_init[of cfg] run_inv[of cfg]
  by (auto simp flip: cache_inv_iff_exact)

theorem bitmask_invariant_witness:
  "PORT_MAX example_config < 31 \<and>
   bitmasks_exact example_config (init_cache example_config) \<and>
   (\<exists>s'. run example_config (Add_member 100 True True 1 7 2 50) (init_cache example_config) = Inr s' \<and>
         bitmasks_exact example_config s' \<and> groups_pool s' = [1] \<and> portmap (group_mem s' 1) = 4)"
proof -
  have h: "PORT_MAX example_config < 31"
    by (simp add: example_config_def)
  have ex: "\<exists>s'. run example_config (Add_member 100 True True 1 7 2 50) (init_cache example_config) = Inr s' \<and>
         groups_pool s' = [1] \<and> portmap (group_mem s' 1) = 4"
    by (simp add: eval_defs upt_rec)
  from bitmask_invariant[OF h] ex h show ?thesis by blast
qed

subsection \<open>C2: recycling a slot\<close>

text \<open>
  Claim C2 wants a recycled record reset before it is keyed anew. Neither \<^verbatim>\<open>get_host\<close> nor
  \<^verbatim>\<open>get_group\<close> gets that far. Whenever an address has no entry, no new entry is to be had
  (the counter is at the pool size or \<^verbatim>\<open>calloc\<close> fails) and the pool queue holds an entry to
  recycle, the victim is unlinked and the run stops: in \<^verbatim>\<open>get_host\<close> in the \<^verbatim>\<open>memset\<close> over
  the pointer variable, in \<^verbatim>\<open>get_group\<close>, after the switch was told to clear the victim's
  address, in \<^verbatim>\<open>init_group\<close> on the cleared pointer. The records are as they were.
\<close>

theorem recycling_faults:
  "(lookup_host cfg ea s = None \<and> \<not> (hosts_count s < HOST_POOL_SIZE \<and> c) \<and>
    find (\<lambda>a. time_before (host_time (host_mem s a)) t) (hosts_pool s) = Some v
    \<longrightarrow> (\<exists>s'. get_host cfg c ea t s = Inl (Stack_overwrite, s') \<and> host_mem s' = host_mem s)) \<and>
   (lookup_group cfg ea' s = None \<and> \<not> (groups_count s < GROUP_POOL_SIZE \<and> c') \<and>
    find (\<lambda>a. portmap (group_mem s a) = 0) (groups_pool s) = Some v'
    \<longrightarrow> (\<exists>s'. get_group cfg c' ea' True s = Inl (Null_deref, s') \<and>
           switch_log s' = switch_log s @ [Switch_clr_portmap (group_ea (group_mem s v'))] \<and>
           group_mem s' = group_mem s))"
  using get_host_recycle[of cfg ea s c t v] get_group_recycle[of cfg ea' s c' v']
  by blast

text \<open>
  With host 5 cached until tick 130, a call of \<^verbatim>\<open>get_port\<close> for host 6 at tick 200 whose
  \<^verbatim>\<open>calloc\<close> fails picks the entry of host 5. With the entry of group 1 emptied, a call of
  \<^verbatim>\<open>add_member\<close> for group 2 whose \<^verbatim>\<open>calloc\<close> fails picks that entry.
\<close>

theorem recycling_faults_witness:
  "lookup_host example_config 6 one_host_state = None \<and>
   find (\<lambda>a. time_before (host_time (host_mem one_host_state a)) 200) (hosts_pool one_host_state)
     = Some 1 \<and>
   host_ea (host_mem one_host_state 1) = 5 \<and>
   faulted (get_host example_config False 6 200 one_host_state) = Some Stack_overwrite \<and>
   faulted (get_port example_config 200 False 4 6 one_host_state) = Some Stack_overwrite \<and>
   lookup_group example_config 2 empty_group_state = None \<and>
   find (\<lambda>a. portmap (group_mem empty_group_state a) = 0) (groups_pool empty_group_state)
     = Some 1 \<and>
   group_ea (group_mem empty_group_state 1) = 1 \<and>
   faulted (get_group example_config False 2 True empty_group_state) = Some Null_deref \<and>
   faulted (add_member example_config 200 False True 2 8 3 50 empty_group_state) = Some Null_deref"
proof -
  have h: "lookup_host example_config 6 one_host_state = None"
    "find (\<lambda>a. time_before (host_time (host_mem one_host_state a)) 200) (hosts_pool one_host_state)
       = Some 1"
    "host_ea (host_mem one_host_state 1) = 5"
    by (simp_all add: eval_defs3 one_host_state_def)
  have g: "lookup_group example_config 2 empty_group_state = None"
    "find (\<lambda>a. portmap (group_mem empty_group_state a) = 0) (groups_pool empty_group_state)
       = Some 1"
    "group_ea (group_mem empty_group_state 1) = 1"
    by (simp_all add: eval_defs3 empty_group_state_def upt_rec)
  from recycling_faults[of example_config 6 one_host_state False 200 1, THEN conjunct1] h
  obtain s1 where
    f1: "get_host example_config False 6 200 one_host_state = Inl (Stack_overwrite, s1)"
    by auto
  from recycling_faults[of example_config _ empty_group_state _ _ _ 2 False 1, THEN conjunct2] g
  obtain s2 where
    f2: "get_group example_config False 2 True empty_group_state = Inl (Null_deref, s2)"
    by auto
  note f = f1 f2
  have pm: "PORT_MAX example_config = 8"
    by (simp add: example_config_def)
  have "faulted (get_port example_config 200 False 4 6 one_host_state) = Some Stack_overwrite"
    by (simp add: get_port_def f faulted_def)
  moreover
  have "faulted (add_member example_config 200 False True 2 8 3 50 empty_group_state)
      = Some Null_deref"
    by (simp add: add_member_def f faulted_def pm)
  ultimately show ?thesis
    using h g f by (simp add: faulted_def)
qed

subsection \<open>C3: the size of the host table\<close>

text \<open>
  Claim C3 bounds the host table by \<^verbatim>\<open>HOST_POOL_SIZE\<close>. \<^verbatim>\<open>get_host\<close> checks
  \<^verbatim>\<open>hosts.count < HOST_POOL_SIZE\<close> before it allocates, but counts only the allocations that
  fail. So from a fresh cache, calls of \<^verbatim>\<open>get_port\<close> for any number of different addresses,
  each with a successful \<^verbatim>\<open>calloc\<close>, all return, leave one entry each in the pool queue and
  the counter at 0; with 33 addresses the pool queue is longer than \<^verbatim>\<open>HOST_POOL_SIZE\<close>.
\<close>

theorem host_pool_unbounded:
  assumes "distinct eas"
  shows "\<exists>s'. run_all cfg (map (Get_port t True sw) eas) (init_cache cfg) = Inr s' \<and>
     length (hosts_pool s') = length eas \<and> hosts_count s' = 0"
proof -
  have i: "hosts_count (init_cache cfg) = 0"
    "\<forall>i. \<forall>a\<in>set (hosts_hash (init_cache cfg) i). host_ea (host_mem (init_cache cfg) a) \<in> {}"
    "hosts_pool (init_cache cfg) = []"
    by (simp_all add: init_cache_def)
  from resolve_many[OF assms _ i(1,2), of cfg t sw] i(3) show ?thesis
    by auto
qed

theorem host_pool_unbounded_witness:
  "distinct (map of_nat [0..<33] :: ether_addr list) \<and>
   (\<exists>s'. run_all example_config (map (Get_port 100 True 3) (map of_nat [0..<33]))
            (init_cache example_config) = Inr s' \<and>
      length (hosts_pool s') = 33 \<and> HOST_POOL_SIZE < length (hosts_pool s') \<and>
      hosts_count s' = 0)"
proof -
  have d: "distinct (map of_nat [0..<33] :: ether_addr list)"
    by (simp add: upt_rec)
  from host_pool_unbounded[OF d, of example_config 100 3] d show ?thesis
    by (auto simp: HOST_POOL_SIZE_def)
qed

subsection \<open>C4: what \<^verbatim>\<open>del_member\<close> returns\<close>

text \<open>
  Claim C4 says that \<^verbatim>\<open>del_member\<close> returns the bits that went from 1 to 0 in the port map
  of the group, before the ports of routers are taken out. The code takes them out first
  (\<^verbatim>\<open>portmap &= ~routers.group.portmap\<close>) and returns what it reports to the switch. With a
  router on port 2, removing the only member of group 1, on port 2, clears bit 2 of the
  port map and returns 0.
\<close>

theorem del_member_return_counterexample:
  "returned (del_member example_config 1 7 2 router_member_state) = Some 0 \<and>
   group_bitmask example_config 1 router_member_state
     AND NOT (group_bitmask example_config 1
                (state_of (del_member example_config 1 7 2 router_member_state))) = 4"
  by (simp add: eval_defs2 upt_rec)

text \<open>
  Claim C4 as amended. For a valid port and a group that has an entry, \<^verbatim>\<open>del_member\<close>
  returns the bits that went from 1 to 0 in the port map of the group without the bits of
  the port map of the router state; the switch is told to remove exactly these bits when
  there are any, and is not called otherwise.
\<close>

theorem del_member_return:
  assumes "0 \<le> port" "port \<le> int (PORT_MAX cfg)"
    and "lookup_group cfg maddr s \<noteq> None"
    and "del_member cfg maddr addr port s = Inr (r, s')"
  shows "r = (group_bitmask cfg maddr s AND NOT (group_bitmask cfg maddr s'))
               AND NOT (portmap (routers_group s)) \<and>
         switch_log s' = switch_log s @ (if r \<noteq> 0 then [Switch_del_portmap maddr r] else [])"
proof -
  from assms(3) obtain g where lg: "lookup_group cfg maddr s = Some g" by auto
  from del_member_result[OF assms(1,2) lg, of addr] assms(4)
  obtain grp2 where
    r: "r = ((portmap (group_mem s g) XOR get_portmap cfg grp2) AND portmap (group_mem s g))
             AND NOT (portmap (routers_group s))"
    and s': "groups_hash s' = groups_hash s" "\<forall>a. a \<noteq> g \<longrightarrow> group_mem s' a = group_mem s a"
      "group_ea (group_mem s' g) = group_ea (group_mem s g)"
      "portmap (group_mem s' g) = get_portmap cfg grp2"
      "switch_log s' = switch_log s @ (if r \<noteq> 0 then [Switch_del_portmap maddr r] else [])"
    by auto
  have "lookup_group cfg maddr s' = lookup_group cfg maddr s"
    by (rule lookup_group_cong[OF s'(1)]) (use s'(2,3) in metis)
  with lg s'(4) have "group_bitmask cfg maddr s' = get_portmap cfg grp2"
    "group_bitmask cfg maddr s = portmap (group_mem s g)"
    by (simp_all add: group_bitmask_def)
  with r s'(5) show ?thesis
    by (simp add: newly_cleared_bits)
qed

theorem del_member_return_witness:
  "(0::int) \<le> 2 \<and> 2 \<le> int (PORT_MAX example_config) \<and>
   lookup_group example_config 1 one_member_state \<noteq> None \<and>
   (\<exists>s'. del_member example_config 1 7 2 one_member_state = Inr (4, s') \<and>
      group_bitmask example_config 1 one_member_state = 4 \<and>
      group_bitmask example_config 1 s' = 0 \<and>
      new_calls one_member_state s' = [Switch_del_portmap 1 4])"
proof -
  have h1: "(0::int) \<le> 2" and h2: "2 \<le> int (PORT_MAX example_config)"
    by (simp_all add: example_config_def)
  have h3: "lookup_group example_config 1 one_member_state \<noteq> None"
    and b: "group_bitmask example_config 1 one_member_state = 4"
    and r: "portmap (routers_group one_member_state) = 0"
    by (simp_all add: eval_defs2 upt_rec)
  have "\<exists>s'. del_member example_config 1 7 2 one_member_state = Inr (4, s') \<and>
      group_bitmask example_config 1 s' = 0"
    by (simp add: eval_defs2 upt_rec)
  then obtain s' where
    s': "del_member example_config 1 7 2 one_member_state = Inr (4, s')"
      "group_bitmask example_config 1 s' = 0" by auto
  from del_member_return[OF h1 h2 h3 s'(1)] s' h1 h2 h3 b show ?thesis
    by (auto simp: new_calls_def)
qed


subsection \<open>C5: what \<^verbatim>\<open>add_member\<close> returns and tells the switch\<close>

text \<open>
  Claim C5. A call of \<^verbatim>\<open>add_member\<close> with a valid port that returns gives back exactly the
  bits that were clear in the port map of the group before the call (0 for a group without
  an entry) and are set after it; the switch gets one add instruction for the group address,
  with these bits or-ed with the port map of the router state, when the bits are not
  empty, and no call at all otherwise.
\<close>

theorem add_member_newly_set:
  assumes "0 \<le> port" "port \<le> int (PORT_MAX cfg)"
    and "add_member cfg t cg cm maddr addr port timeout s = Inr (r, s')"
  shows "r = NOT (group_bitmask cfg maddr s) AND group_bitmask cfg maddr s' \<and>
         routers_group s' = routers_group s \<and>
         switch_log s' = switch_log s @
           (if r \<noteq> 0 then [Switch_add_portmap maddr (r OR portmap (routers_group s))] else [])"
proof (cases "get_group cfg cg maddr True s")
  case (Inl f)
  with assms show ?thesis by (simp add: add_member_def)
next
  case (Inr x)
  obtain go s1 where x: "x = (go, s1)" by (cases x)
  show ?thesis
  proof (cases go)
    case None
    from Inr[unfolded x None] have "lookup_group cfg maddr s = None" "s1 = s"
      by (cases rule: get_group_cases; simp)+
    with assms Inr x None show ?thesis
      by (simp add: add_member_def group_bitmask_def)
  next
    case (Some g)
    note gg = Inr[unfolded x Some]
    note gs = get_group_Some[OF gg]
    obtain m grp2 s2 where gm:
      "get_member ((group_mem s1 g)\<lparr>group_time := t + timeout\<rparr>) addr (nat port) True cm s1 = (m, grp2, s2)"
      by (metis prod_cases3)
    note res = add_member_result[OF assms(1,2) gg gm]
    from res(1) assms(3) obtain grp3 where
      r: "r = (portmap (group_mem s1 g) XOR get_portmap cfg grp3) AND get_portmap cfg grp3"
      and s': "group_mem s' = (group_mem s1)(g := grp3\<lparr>portmap := get_portmap cfg grp3\<rparr>)"
        "groups_hash s' = groups_hash s1" "routers_group s' = routers_group s1"
        "switch_log s' = switch_log s1 @
          (if r \<noteq> 0 then [Switch_add_portmap maddr (r OR portmap (routers_group s1))] else [])"
      and ea: "group_ea grp3 = group_ea (group_mem s1 g)"
      using res(3) by auto
    have "lookup_group cfg maddr s' = lookup_group cfg maddr s1"
      by (rule lookup_group_update[OF s'(2) s'(1)]) (simp add: ea)
    with gs have "group_bitmask cfg maddr s' = get_portmap cfg grp3"
      by (simp add: group_bitmask_def s')
    with r gs s' show ?thesis
      by (simp add: newly_set_bits)
  qed
qed

theorem add_member_newly_set_witness:
  "(0::int) \<le> 2 \<and> 2 \<le> int (PORT_MAX example_config) \<and>
   (\<exists>s'. add_member example_config 100 True True 1 7 2 50 (init_cache example_config) = Inr (4, s') \<and>
     4 = NOT (group_bitmask example_config 1 (init_cache example_config))
           AND group_bitmask example_config 1 s' \<and>
     switch_log s' = [Switch_add_portmap 1 4])"
proof -
  have h1: "(0::int) \<le> 2" and h2: "2 \<le> int (PORT_MAX example_config)"
    by (simp_all add: example_config_def)
  have "\<exists>s'. add_member example_config 100 True True 1 7 2 50 (init_cache example_config) = Inr (4, s')"
    by (simp add: eval_defs upt_rec)
  then obtain s' where
    s': "add_member example_config 100 True True 1 7 2 50 (init_cache example_config) = Inr (4, s')" ..
  have i: "switch_log (init_cache example_config) = []"
    "portmap (routers_group (init_cache example_config)) = 0"
    by (simp_all add: init_cache_def init_group_eq)
  from add_member_newly_set[OF h1 h2 s'] s' h1 h2 show ?thesis
    by (auto simp: i)
qed


subsection \<open>C6: ports of routers stay in the forwarding masks\<close>

text \<open>
  Claim C6 says that a port held by a router leaves the forwarding mask of a group only
  through the router timer. \<^verbatim>\<open>purge_cache\<close> clears the whole entry of every group in the
  switch (\<^verbatim>\<open>switch_clr_portmap\<close>) before it empties the router state: with a router on port 2
  and group 1 listening on port 3, shutdown clears the entry of group 1, port 2 included,
  while bit 2 of the port map of the router state is still set. (The recycling path of
  \<^verbatim>\<open>get_group\<close> issues the same instruction before it runs into its fault.)
\<close>

theorem router_ports_kept_counterexample:
  "bit (portmap (routers_group router_other_port_state)) 2 \<and>
   new_calls router_other_port_state (purge_cache example_config router_other_port_state)
     = [Switch_clr_portmap 1] \<and>
   removes_port 2 (Switch_clr_portmap 1)"
  by (simp add: eval_defs4 upt_rec)


text \<open>
  Claim C6 as amended. In every state and for every port \<open>p\<close> set in the port map of the
  router state, no public operation that returns (\<^verbatim>\<open>get_port\<close>, \<^verbatim>\<open>add_member\<close>,
  \<^verbatim>\<open>del_member\<close>, \<^verbatim>\<open>add_router\<close>, \<^verbatim>\<open>expire_members\<close>, the group sweep) issues a driver
  instruction that removes \<open>p\<close> from a forwarding mask or clears an entry; the one
  operation that does is the router timer, which removes \<open>p\<close> only when it has cleared \<open>p\<close>
  from the port map of the router state in the same run, and only from groups of the pool
  whose own port map does not hold \<open>p\<close>. Shutdown, which clears whole entries, is not one
  of these operations.
\<close>

theorem router_ports_kept:
  assumes "run cfg c s = Inr s'"
    and "bit (portmap (routers_group s)) p"
    and "x \<in> set (new_calls s s')"
    and "removes_port p x"
  shows "(\<exists>t. c = Router_timer t) \<and> \<not> bit (portmap (routers_group s')) p \<and>
    (\<exists>a\<in>set (groups_pool s). \<exists>m. x = Switch_del_portmap (group_ea (group_mem s a)) m \<and>
        bit m p \<and> \<not> bit (portmap (group_mem s a)) p)"
proof (cases "\<exists>t. c = Router_timer t")
  case False
  with run_no_removal[OF assms(1) _ assms(2,3)] assms(4) show ?thesis by simp
next
  case True
  then obtain t where c: "c = Router_timer t" ..
  with assms(1) have s': "s' = router_timer cfg t s" by simp
  from router_timer_calls[OF assms(3)[unfolded s'] assms(4)] c s' show ?thesis by simp
qed


theorem router_ports_kept_witness:
  "run example_config (Router_timer 200) router_other_port_state
     = Inr (router_timer example_config 200 router_other_port_state) \<and>
   bit (portmap (routers_group router_other_port_state)) 2 \<and>
   Switch_del_portmap 1 4 \<in> set (new_calls router_other_port_state
       (router_timer example_config 200 router_other_port_state)) \<and>
   removes_port 2 (Switch_del_portmap 1 4) \<and>
   \<not> bit (portmap (routers_group (router_timer example_config 200 router_other_port_state))) 2 \<and>
   (\<exists>a\<in>set (groups_pool router_other_port_state).
      \<not> bit (portmap (group_mem router_other_port_state a)) 2)"
proof -
  have h1: "run example_config (Router_timer 200) router_other_port_state
     = Inr (router_timer example_config 200 router_other_port_state)" by simp
  have h2: "bit (portmap (routers_group router_other_port_state)) 2"
    and h3: "Switch_del_portmap 1 4 \<in> set (new_calls router_other_port_state
       (router_timer example_config 200 router_other_port_state))"
    by (simp_all add: eval_defs4 upt_rec)
  have h4: "removes_port 2 (Switch_del_portmap 1 4)" by simp
  from router_ports_kept[OF h1 h2 h3 h4] h1 h2 h3 h4 show ?thesis by blast
qed

subsection \<open>C7: removing after adding\<close>

text \<open>
  Claim C7 allows the member \<open>(A, p)\<close> to be in the group before the add. Then the add
  only refreshes it, the removal takes it out, and the port map ends without the bit it
  had before: group 1 with the one member 7 on port 2 goes from port map 4 to 0.
\<close>

theorem add_then_del_counterexample:
  "no_other_members example_config 1 7 2 one_member_state \<and>
   group_bitmask example_config 1 one_member_state = 4 \<and>
   returned (add_member example_config 100 True True 1 7 2 50 one_member_state) = Some 0 \<and>
   returned (del_member example_config 1 7 2
     (state_of (add_member example_config 100 True True 1 7 2 50 one_member_state))) = Some 4 \<and>
   group_bitmask example_config 1
     (state_of (del_member example_config 1 7 2
        (state_of (add_member example_config 100 True True 1 7 2 50 one_member_state)))) = 0"
  by (simp add: eval_defs2 upt_rec)


text \<open>
  Claim C7 as amended. In a state whose port maps are exact, for a valid port and a group
  that has no member on any port (or no entry at all), \<^verbatim>\<open>del_member\<close> right after
  \<^verbatim>\<open>add_member\<close> for the same group address, member address and port leaves the port map
  of the group as it was before the add, namely 0.
\<close>

theorem add_then_del_restores:
  assumes "PORT_MAX cfg < 31" "bitmasks_exact cfg s"
    and "0 \<le> port" "port \<le> int (PORT_MAX cfg)"
    and "no_members cfg maddr s"
    and "add_member cfg t cg cm maddr addr port timeout s = Inr (r1, s1)"
    and "del_member cfg maddr addr port s1 = Inr (r2, s2)"
  shows "group_bitmask cfg maddr s2 = group_bitmask cfg maddr s"
proof -
  have b0: "group_bitmask cfg maddr s = 0"
    by (rule no_members_bitmask[OF assms(1,2,5)])
  have "group_bitmask cfg maddr s2 = 0"
  proof (cases "get_group cfg cg maddr True s")
    case (Inl f)
    with assms(3,4,6) show ?thesis by (simp add: add_member_def)
  next
    case (Inr x)
    obtain go sg where x: "x = (go, sg)" by (cases x)
    show ?thesis
    proof (cases go)
      case None
      from Inr[unfolded x None] have "lookup_group cfg maddr s = None" "sg = s"
        by (cases rule: get_group_cases; simp)+
      moreover from this assms(3,4,6) Inr x None have "s1 = s"
        by (simp add: add_member_def)
      ultimately show ?thesis
        using del_member_missing_group[OF _ assms(7)] by (simp add: group_bitmask_def)
    next
      case (Some g)
      note gg = Inr[unfolded x Some]
      note gs = get_group_Some[OF gg]
      have empty: "\<And>p. p \<le> PORT_MAX cfg \<Longrightarrow> group_members (group_mem sg g) p = []"
      proof (cases "lookup_group cfg maddr s")
        case None
        with gs show "\<And>p. p \<le> PORT_MAX cfg \<Longrightarrow> group_members (group_mem sg g) p = []" by simp
      next
        case (Some g')
        with gs have "g' = g" "sg = s" by simp_all
        with Some assms(5) show "\<And>p. p \<le> PORT_MAX cfg \<Longrightarrow> group_members (group_mem sg g) p = []"
          by (simp add: no_members_def)
      qed
      obtain m grp2 sm where gm:
        "get_member ((group_mem sg g)\<lparr>group_time := t + timeout\<rparr>) addr (nat port) True cm sg
          = (m, grp2, sm)"
        by (metis prod_cases3)
      have np: "nat port \<le> PORT_MAX cfg" using assms(3,4) by simp
      from get_member_lists[OF gm] empty[OF np]
      consider (none) "m = None" "group_members grp2 = group_members (group_mem sg g)"
        | (one) "m = Some 0"
            "group_members grp2 = (group_members (group_mem sg g))
               (nat port := [\<lparr>member_time = 0, member_addr = addr\<rparr>])"
        by auto
      then obtain grp3 where
        g3: "group_mem s1 = (group_mem sg)(g := grp3)" "group_ea grp3 = group_ea (group_mem sg g)"
          "groups_hash s1 = groups_hash sg"
        and ms: "group_members grp3 = group_members (group_mem sg g) \<or>
             group_members grp3 = (group_members (group_mem sg g))
               (nat port := [\<lparr>member_time = t + timeout, member_addr = addr\<rparr>])"
      proof cases
        case none
        from add_member_result[OF assms(3,4) gg gm] assms(6) none
        show ?thesis by (intro that[of "grp2\<lparr>portmap := get_portmap cfg grp2\<rparr>"]) auto
      next
        case one
        let ?g3 = "grp2\<lparr>group_members := (group_members grp2)
                          (nat port := update_nth 0 (\<lambda>m. m\<lparr>member_time := group_time grp2\<rparr>)
                                         (group_members grp2 (nat port)))\<rparr>"
        from add_member_result[OF assms(3,4) gg gm] assms(6) one
        show ?thesis
          by (intro that[of "?g3\<lparr>portmap := get_portmap cfg ?g3\<rparr>"]) auto
      qed
      have lg1: "lookup_group cfg maddr s1 = Some g"
        using lookup_group_update[OF g3(3) g3(1), of cfg maddr] g3(2) gs by simp
      let ?ms = "group_members (group_mem s1 g) (nat port)"
      define grpd where "grpd = (case find_member addr ?ms of
           Some i \<Rightarrow> (group_mem s1 g)\<lparr>group_members :=
                    (group_members (group_mem s1 g))(nat port := take i ?ms @ drop (Suc i) ?ms)\<rparr>
         | None \<Rightarrow> group_mem s1 g)"
      have "group_members grpd p = []" if "p \<le> PORT_MAX cfg" for p
        using ms empty[OF that] empty[OF np] that
        by (auto simp: grpd_def g3(1) split: option.splits)
      then have z: "get_portmap cfg grpd = 0" by (rule get_portmap_zero)
      from del_member_result[OF assms(3,4) lg1, of addr] assms(7)
      have s2: "groups_hash s2 = groups_hash s1" "\<forall>a. a \<noteq> g \<longrightarrow> group_mem s2 a = group_mem s1 a"
        "group_ea (group_mem s2 g) = group_ea (group_mem s1 g)"
        "portmap (group_mem s2 g) = 0"
        by (auto simp: z simp flip: grpd_def)
      have "lookup_group cfg maddr s2 = lookup_group cfg maddr s1"
        by (rule lookup_group_cong[OF s2(1)]) (use s2(2,3) in metis)
      with lg1 s2(4) show ?thesis by (simp add: group_bitmask_def)
    qed
  qed
  with b0 show ?thesis by simp
qed

theorem add_then_del_restores_witness:
  "PORT_MAX example_config < 31 \<and> bitmasks_exact example_config (init_cache example_config) \<and>
   (0::int) \<le> 2 \<and> 2 \<le> int (PORT_MAX example_config) \<and>
   no_members example_config 1 (init_cache example_config) \<and>
   (\<exists>s1 s2. add_member example_config 100 True True 1 7 2 50 (init_cache example_config) = Inr (4, s1) \<and>
      del_member example_config 1 7 2 s1 = Inr (4, s2) \<and>
      group_bitmask example_config 1 s1 = 4 \<and>
      group_bitmask example_config 1 s2 = group_bitmask example_config 1 (init_cache example_config))"
proof -
  note h1 = example_ports
  have h2: "bitmasks_exact example_config (init_cache example_config)"
    using cache_inv_init[of example_config] h1 by (simp add: cache_inv_iff_exact)
  have h3: "(0::int) \<le> 2" and h4: "2 \<le> int (PORT_MAX example_config)"
    and h5: "no_members example_config 1 (init_cache example_config)"
    by (simp_all add: eval_defs2)
  have "\<exists>s1. add_member example_config 100 True True 1 7 2 50 (init_cache example_config) = Inr (4, s1) \<and>
      group_bitmask example_config 1 s1 = 4 \<and>
      (\<exists>s2. del_member example_config 1 7 2 s1 = Inr (4, s2))"
    by (simp add: eval_defs2 upt_rec)
  then obtain s1 s2 where
    a: "add_member example_config 100 True True 1 7 2 50 (init_cache example_config) = Inr (4, s1)"
    and b: "group_bitmask example_config 1 s1 = 4"
    and d: "del_member example_config 1 7 2 s1 = Inr (4, s2)"
    by blast
  from add_then_del_restores[OF h1 h2 h3 h4 h5 a d] a b d h1 h2 h3 h4 h5 show ?thesis
    by blast
qed
subsection \<open>C8: the cached port and its time to live\<close>





subsection \<open>C9: lookup misses\<close>

text \<open>
  Claim C9 says that neither \<^verbatim>\<open>del_member\<close> for a member that is not there nor
  \<^verbatim>\<open>expire_members\<close> for an address without a group entry reports an error. The second
  half fails: \<^verbatim>\<open>expire_members\<close> ends in \<^verbatim>\<open>return -1\<close> when \<^verbatim>\<open>get_group\<close> finds nothing, the
  result that \<^verbatim>\<open>add_member\<close> gives for a port out of range.
\<close>

theorem lookup_miss_counterexample:
  "lookup_group example_config 1 (init_cache example_config) = None \<and>
   expire_members example_config 100 (Some 1) 50 (init_cache example_config)
     = Inr (- 1, init_cache example_config) \<and>
   returned (add_member example_config 100 True True 1 7 (- 1) 50 (init_cache example_config))
     = Some (- 1)"
  by (simp add: eval_defs2)


text \<open>
  Claim C9 as amended. In a state whose port maps are exact, \<^verbatim>\<open>del_member\<close> with a valid
  port for a member that is not present (no group entry, or the address not on the list of
  the port) returns 0 and leaves the whole state as it was, the log of driver calls
  included; \<^verbatim>\<open>expire_members\<close> for an address without a group entry returns \<open>-1\<close> and
  leaves the whole state as it was.
\<close>

theorem lookup_miss_no_change:
  assumes "PORT_MAX cfg < 31" "bitmasks_exact cfg s"
  shows "(0 \<le> port \<and> port \<le> int (PORT_MAX cfg) \<and> \<not> member_present cfg maddr addr (nat port) s
           \<longrightarrow> del_member cfg maddr addr port s = Inr (0, s)) \<and>
         (lookup_group cfg ea s = None
           \<longrightarrow> expire_members cfg t (Some ea) timeout s = Inr (- 1, s))"
proof (intro conjI impI)
  assume "lookup_group cfg ea s = None"
  then show "expire_members cfg t (Some ea) timeout s = Inr (- 1, s)"
    by (simp add: expire_members_def get_group_lookup)
next
  assume a: "0 \<le> port \<and> port \<le> int (PORT_MAX cfg) \<and> \<not> member_present cfg maddr addr (nat port) s"
  show "del_member cfg maddr addr port s = Inr (0, s)"
  proof (cases "lookup_group cfg maddr s")
    case None
    with a show ?thesis
      by (simp add: del_member_def get_group_lookup del_member_report_def)
  next
    case (Some g)
    with a have nf: "find_member addr (group_members (group_mem s g) (nat port)) = None"
      by (simp add: member_present_def)
    have ok: "get_portmap cfg (group_mem s g) = portmap (group_mem s g)"
      using lookup_group_ok[OF cache_inv_of_exact[OF assms] Some] by (simp add: group_ok_def)
    from a have v: "0 \<le> port" "port \<le> int (PORT_MAX cfg)" by simp_all
    from del_member_result[OF v Some, of addr] nf ok
    obtain s' where "del_member cfg maddr addr port s = Inr (0, s')"
      "s' = s\<lparr>group_mem := (group_mem s)
                 (g := (group_mem s g)\<lparr>portmap := get_portmap cfg (group_mem s g)\<rparr>)\<rparr>"
      by auto
    then show ?thesis by (simp add: ok)
  qed
qed

theorem lookup_miss_no_change_witness:
  "PORT_MAX example_config < 31 \<and> bitmasks_exact example_config one_member_state \<and>
   (0::int) \<le> 3 \<and> 3 \<le> int (PORT_MAX example_config) \<and>
   \<not> member_present example_config 1 7 (nat 3) one_member_state \<and>
   lookup_group example_config 1 one_member_state \<noteq> None \<and>
   del_member example_config 1 7 3 one_member_state = Inr (0, one_member_state) \<and>
   lookup_group example_config 2 one_member_state = None \<and>
   expire_members example_config 100 (Some 2) 50 one_member_state = Inr (- 1, one_member_state)"
proof -
  note h1 = example_ports and h2 = one_member_state_exact
  have h3: "(0::int) \<le> 3 \<and> 3 \<le> int (PORT_MAX example_config) \<and>
      \<not> member_present example_config 1 7 (nat 3) one_member_state"
    and h4: "lookup_group example_config 2 one_member_state = None"
    and h5: "lookup_group example_config 1 one_member_state \<noteq> None"
    by (simp_all add: eval_defs2 upt_rec)
  from lookup_miss_no_change[OF h1 h2, of 3 1 7 2 100 50] h1 h2 h3 h4 h5 show ?thesis
    by simp
qed

subsection \<open>C10: \<^verbatim>\<open>add_member\<close> without a member entry to be had\<close>

text \<open>
  Claim C10. Take a state whose port maps are exact and a call of \<^verbatim>\<open>add_member\<close> with a
  valid port that obtains its group entry (the group has one, or the pool is below
  \<^verbatim>\<open>GROUP_POOL_SIZE\<close> and \<^verbatim>\<open>calloc\<close> succeeds) but no member entry: the address is not on the
  list of the port, the free list is empty, and the member count is at
  \<^verbatim>\<open>MEMBER_POOL_SIZE\<close> or \<^verbatim>\<open>calloc\<close> fails. The call returns 0 and makes no driver call, and
  yet the state has changed: the group has an entry, newly made with an empty port map and
  linked into the pool queue if it had none, its time is \<open>now + timeout\<close>, and the group
  timer is moved to that time if it was idle or armed for a later tick.
\<close>

theorem add_member_no_member_slot:
  assumes "PORT_MAX cfg < 31" "bitmasks_exact cfg s"
    and "0 \<le> port" "port \<le> int (PORT_MAX cfg)"
    and "lookup_group cfg maddr s \<noteq> None \<or> (groups_count s < GROUP_POOL_SIZE \<and> cg)"
    and "\<not> member_present cfg maddr addr (nat port) s"
    and "members_free s = []"
    and "MEMBER_POOL_SIZE \<le> members_count s \<or> \<not> cm"
  shows "\<exists>s' g. add_member cfg t cg cm maddr addr port timeout s = Inr (0, s') \<and>
      switch_log s' = switch_log s \<and>
      lookup_group cfg maddr s' = Some g \<and>
      group_time (group_mem s' g) = t + timeout \<and>
      portmap (group_mem s' g) = group_bitmask cfg maddr s \<and>
      (lookup_group cfg maddr s = None \<longrightarrow>
         g \<in> set (groups_pool s') \<and> portmap (group_mem s' g) = 0 \<and>
         (\<forall>p\<le>PORT_MAX cfg. group_members (group_mem s' g) p = [])) \<and>
      (\<forall>g'. lookup_group cfg maddr s = Some g' \<longrightarrow>
         g' = g \<and> group_members (group_mem s' g) = group_members (group_mem s g)) \<and>
      groups_timer s' =
        (if \<not> pending (groups_timer s) \<or> time_before (t + timeout) (expires (groups_timer s))
         then mod_timer (groups_timer s) (t + timeout) else groups_timer s)"
proof -
  from get_group_obtained[OF assms(5)] obtain g s1 where
    gg: "get_group cfg cg maddr True s = Inr (Some g, s1)" by blast
  note gs = get_group_Some[OF gg]
  have inv1: "cache_inv cfg s1"
    using get_group_inv[OF gg] assms(1,2) by (simp add: cache_inv_iff_exact)
  from gs have lg1: "lookup_group cfg maddr s1 = Some g" by simp
  have ok: "get_portmap cfg (group_mem s1 g) = portmap (group_mem s1 g)"
    using lookup_group_ok[OF inv1 lg1] by (simp add: group_ok_def)
  have nf: "find_member addr (group_members (group_mem s1 g) (nat port)) = None"
  proof (cases "lookup_group cfg maddr s")
    case None
    with gs assms(3,4) show ?thesis by auto
  next
    case (Some g')
    with gs assms(6) show ?thesis by (auto simp: member_present_def)
  qed
  let ?g1 = "(group_mem s1 g)\<lparr>group_time := t + timeout\<rparr>"
  have gm: "get_member ?g1 addr (nat port) True cm s1 = (None, ?g1, s1)"
    using nf assms(7,8) gs by (intro get_member_exhausted) simp_all
  have pm: "get_portmap cfg ?g1 = portmap (group_mem s1 g)"
    using ok by (simp add: get_portmap_def)
  from add_member_result(1)[OF assms(3,4) gg gm]
  obtain s' where s': "add_member cfg t cg cm maddr addr port timeout s = Inr (0, s')"
    "group_mem s' = (group_mem s1)(g := ?g1\<lparr>portmap := portmap (group_mem s1 g)\<rparr>)"
    "groups_hash s' = groups_hash s1" "groups_pool s' = groups_pool s1"
    "switch_log s' = switch_log s1"
    "groups_timer s' =
        (if \<not> pending (groups_timer s1) \<or> time_before (t + timeout) (expires (groups_timer s1))
         then mod_timer (groups_timer s1) (t + timeout) else groups_timer s1)"
    by (auto simp: pm)
  have lg': "lookup_group cfg maddr s' = Some g"
    using lookup_group_update[OF s'(3) s'(2), of cfg maddr] lg1 by simp
  have z: "lookup_group cfg maddr s = None \<longrightarrow> group_bitmask cfg maddr s = 0"
    by (simp add: group_bitmask_def)
  show ?thesis
    using s' lg' gs z
    by (intro exI[of _ s'] exI[of _ g]) auto
qed


theorem add_member_no_member_slot_witness:
  "PORT_MAX example_config < 31 \<and> bitmasks_exact example_config one_member_state \<and>
   (0::int) \<le> 3 \<and> 3 \<le> int (PORT_MAX example_config) \<and>
   groups_count one_member_state < GROUP_POOL_SIZE \<and>
   \<not> member_present example_config 2 8 (nat 3) one_member_state \<and>
   members_free one_member_state = [] \<and>
   lookup_group example_config 2 one_member_state = None \<and>
   (\<exists>s' g. add_member example_config 200 True False 2 8 3 50 one_member_state = Inr (0, s') \<and>
      switch_log s' = switch_log one_member_state \<and>
      lookup_group example_config 2 s' = Some g \<and> g \<in> set (groups_pool s') \<and>
      group_time (group_mem s' g) = 250 \<and> portmap (group_mem s' g) = 0 \<and>
      groups_timer s' = groups_timer one_member_state)"
proof -
  note h1 = example_ports and h2 = one_member_state_exact
  have h3: "(0::int) \<le> 3" and h4: "3 \<le> int (PORT_MAX example_config)"
    by (simp_all add: example_config_def)
  have h5: "lookup_group example_config 2 one_member_state \<noteq> None \<or>
      (groups_count one_member_state < GROUP_POOL_SIZE \<and> True)"
    and h6: "\<not> member_present example_config 2 8 (nat 3) one_member_state"
    and h7: "members_free one_member_state = []"
    and h8: "MEMBER_POOL_SIZE \<le> members_count one_member_state \<or> \<not> False"
    and n: "lookup_group example_config 2 one_member_state = None"
    and gc: "groups_count one_member_state < GROUP_POOL_SIZE"
    and tm: "pending (groups_timer one_member_state)"
         "\<not> time_before (200 + 50) (expires (groups_timer one_member_state))"
    by (simp_all add: eval_defs2 upt_rec)
  from add_member_no_member_slot[OF h1 h2 h3 h4 h5 h6 h7 h8, of 200 50]
  obtain s' g where
    "add_member example_config 200 True False 2 8 3 50 one_member_state = Inr (0, s')"
    "switch_log s' = switch_log one_member_state"
    "lookup_group example_config 2 s' = Some g" "g \<in> set (groups_pool s')"
    "group_time (group_mem s' g) = 200 + 50" "portmap (group_mem s' g) = 0"
    "groups_timer s' = groups_timer one_member_state"
    using n tm by auto
  then show ?thesis
    using h1 h2 h3 h4 gc h6 h7 n by (intro conjI exI[of _ s'] exI[of _ g]) simp_all
qed

end
